theory Spec2Isabelle
  imports Complex_Main "HOL-Library.Word"
begin

unbundle bit_operations_syntax

section \<open>Buffers, errors and the variable-length integer decoder\<close>

text \<open>
  A Node.js \<open>Buffer\<close> is a list of bytes. Offsets are buffer indices (natural numbers);
  the packet parser always starts the frame parser at offset 0.
\<close>

type_synonym byte = "8 word"
type_synonym Buffer = "byte list"

text \<open>Modelled from the spec: the enum \<open>ConnectionErrorCodes\<close> (section 6, the 16-bit
  error codes) and, of the library's internal \<open>QuickerErrorCodes\<close>, the one code the
  sources name, all others being one constructor.\<close>

datatype ConnectionErrorCodes =
    NO_ERROR | INTERNAL_ERROR | SERVER_BUSY | FLOW_CONTROL_ERROR | STREAM_ID_ERROR
  | STREAM_STATE_ERROR | FINAL_OFFSET_ERROR | FRAME_ENCODING_ERROR
  | TRANSPORT_PARAMETER_ERROR | VERSION_NEGOTIATION_ERROR | PROTOCOL_VIOLATION

datatype QuickerErrorCodes = IGNORE_PACKET_ERROR | OTHER_QUICKER_ERROR

text \<open>Everything the code can throw: the \<open>RangeError\<close> of an out-of-range Buffer
  access, the \<open>TypeError\<close> of a call on \<open>undefined\<close>, a \<open>QuicError\<close> or a
  \<open>QuickerError\<close> with its code, and any other \<open>Error\<close>.\<close>

datatype error =
    RangeError | TypeError | QuicError ConnectionErrorCodes
  | QuickerError QuickerErrorCodes | OtherError

text \<open>Sequencing of a step that may throw: the first error ends the computation.\<close>

definition bind_err :: "error + 'a \<Rightarrow> ('a \<Rightarrow> error + 'b) \<Rightarrow> error + 'b" where
  "bind_err m f = (case m of Inl e \<Rightarrow> Inl e | Inr x \<Rightarrow> f x)"

text \<open>\<open>buf.readUInt8(offset)\<close> and \<open>buf.readUInt16BE(offset)\<close>: a read that is not
  inside the buffer throws a \<open>RangeError\<close>.\<close>

definition readUInt8 :: "Buffer \<Rightarrow> nat \<Rightarrow> error + byte" where
  "readUInt8 buffer offset =
     (if offset < length buffer then Inr (buffer ! offset) else Inl RangeError)"

definition readUInt16BE :: "Buffer \<Rightarrow> nat \<Rightarrow> error + nat" where
  "readUInt16BE buffer offset =
     (if offset + 2 \<le> length buffer
      then Inr (256 * unat (buffer ! offset) + unat (buffer ! (offset + 1)))
      else Inl RangeError)"

text \<open>The unsigned big-endian number held by a sequence of bytes.\<close>

definition be_value :: "byte list \<Rightarrow> nat" where
  "be_value bs = foldl (\<lambda>acc b. 256 * acc + unat b) 0 bs"

text \<open>\<open>buf.readUIntBE(offset, byteLength)\<close>.\<close>

definition readUIntBE :: "Buffer \<Rightarrow> nat \<Rightarrow> nat \<Rightarrow> error + nat" where
  "readUIntBE buffer offset byteLength =
     (if offset + byteLength \<le> length buffer
      then Inr (be_value (take byteLength (drop offset buffer)))
      else Inl RangeError)"

text \<open>\<open>Buffer.alloc(size)\<close>: \<open>size\<close> zero bytes; a size above Node's
  \<open>buffer.constants.MAX_LENGTH\<close> throws a \<open>RangeError\<close>.\<close>

definition kMaxLength :: nat where
  "kMaxLength = 2 ^ 31 - 1"

definition Buffer_alloc :: "nat \<Rightarrow> error + Buffer" where
  "Buffer_alloc n = (if n \<le> kMaxLength then Inr (replicate n 0) else Inl RangeError)"

text \<open>\<open>buf.copy(target, 0, sourceStart, sourceEnd)\<close>, returning the target after the
  copy: the bytes of \<open>buf\<close> from \<open>sourceStart\<close> up to \<open>sourceEnd\<close> (clamped to the end
  of \<open>buf\<close> and to the room in the target) overwrite the front of the target; a
  \<open>sourceStart\<close> beyond the end of \<open>buf\<close> throws a \<open>RangeError\<close>.\<close>

definition Buffer_copy :: "Buffer \<Rightarrow> Buffer \<Rightarrow> nat \<Rightarrow> nat \<Rightarrow> error + Buffer" where
  "Buffer_copy buffer target sourceStart sourceEnd =
     (if length buffer < sourceStart then Inl RangeError
      else let copied = take (length target) (take (sourceEnd - sourceStart) (drop sourceStart buffer))
           in Inr (copied @ drop (length copied) target))"

text \<open>\<open>buf.toString('utf8', start, end)\<close>: the string decoded from the bytes at
  \<open>[start, min end (length buf))\<close>, empty when \<open>end \<le> start\<close>. The string is
  represented by the bytes it is decoded from.\<close>

definition toString_utf8 :: "Buffer \<Rightarrow> nat \<Rightarrow> nat \<Rightarrow> byte list" where
  "toString_utf8 buffer start stop = take (stop - start) (drop start buffer)"

text \<open>
  Modelled from the spec: \<open>VLIE.decode\<close> (\<open>src/crypto/vlie.ts\<close> is not among the
  sources). Section 4.1: the two high bits of the first byte give the length class
  (1, 2, 4 or 8 bytes), the remaining bits form a big-endian unsigned integer;
  \<open>decode(buf, off)\<close> returns the value and the new offset and fails with
  \<open>FRAME_ENCODING_ERROR\<close> if \<open>off\<close> is past the end. A length class that runs past
  the end of the buffer fails in the same way. The result is the pair
  \<open>(value, offset)\<close> of the interface \<open>VLIEOffset\<close>; the value is a natural number,
  and \<open>toNumber()\<close> leaves it as it is.
\<close>

definition VLIE_decode :: "Buffer \<Rightarrow> nat \<Rightarrow> error + (nat \<times> nat)" where
  "VLIE_decode buffer offset =
     (if length buffer \<le> offset then Inl (QuicError FRAME_ENCODING_ERROR)
      else let n = (2::nat) ^ unat (drop_bit 6 (buffer ! offset))
           in if length buffer < offset + n then Inl (QuicError FRAME_ENCODING_ERROR)
              else Inr (be_value ((buffer ! offset AND 0x3F) # take (n - 1) (drop (offset + 1) buffer)),
                        offset + n))"

section \<open>Frames\<close>

text \<open>
  The numeric values of the enum \<open>FrameType\<close> (\<open>src/frame/base.frame.ts\<close>) are not among
  the sources: the parser takes them as a parameter, one field per enum member
  it uses.
\<close>

record FrameType =
  PADDING :: byte
  RST_STREAM :: byte
  CONNECTION_CLOSE :: byte
  APPLICATION_CLOSE :: byte
  MAX_DATA :: byte
  MAX_STREAM_DATA :: byte
  MAX_STREAM_ID :: byte
  PING :: byte
  BLOCKED :: byte
  STREAM_BLOCKED :: byte
  STREAM_ID_BLOCKED :: byte
  NEW_CONNECTION_ID :: byte
  STOP_SENDING :: byte
  PATH_CHALLENGE :: byte
  PATH_RESPONSE :: byte
  CRYPTO :: byte
  ACK :: byte
  ACK_ECN :: byte
  STREAM :: byte
  STREAM_MAX_NR :: byte

text \<open>
  Modelled from the spec: the frame type bytes of section 6, for evaluating the parser
  on concrete payloads. Where the spec lists one byte for two kinds, \<open>0x0d\<close> is
  \<open>ACK\<close>, \<open>0x0e\<close> and \<open>0x0f\<close> are \<open>PATH_CHALLENGE\<close> and \<open>PATH_RESPONSE\<close>, and
  \<open>ACK_ECN\<close> is \<open>0x1a\<close> (section 9).
\<close>

definition frame_types :: FrameType where
  "frame_types = \<lparr> PADDING = 0x00, RST_STREAM = 0x01, CONNECTION_CLOSE = 0x02,
     APPLICATION_CLOSE = 0x03, MAX_DATA = 0x04, MAX_STREAM_DATA = 0x05, MAX_STREAM_ID = 0x06,
     PING = 0x07, BLOCKED = 0x08, STREAM_BLOCKED = 0x09, STREAM_ID_BLOCKED = 0x0a,
     NEW_CONNECTION_ID = 0x0b, STOP_SENDING = 0x0c, PATH_CHALLENGE = 0x0e,
     PATH_RESPONSE = 0x0f, CRYPTO = 0x18, ACK = 0x0d, ACK_ECN = 0x1a,
     STREAM = 0x10, STREAM_MAX_NR = 0x17 \<rparr>"

text \<open>Modelled from the spec: \<open>Constants.PATH_CHALLENGE_PAYLOAD_SIZE\<close> and
  \<open>Constants.PATH_RESPONSE_PAYLOAD_SIZE\<close> (section 4.5: an 8-byte opaque payload).\<close>

definition PATH_CHALLENGE_PAYLOAD_SIZE :: nat where
  "PATH_CHALLENGE_PAYLOAD_SIZE = 8"

definition PATH_RESPONSE_PAYLOAD_SIZE :: nat where
  "PATH_RESPONSE_PAYLOAD_SIZE = 8"

text \<open>An ACK block is a pair \<open>(gap, block)\<close>. The ACK frame keeps what
  \<open>createAckFrame\<close> receives and the three ECN counts, unset until their setters run.\<close>

type_synonym AckBlock = "nat \<times> nat"

record AckFrame =
  containsECNinfo :: bool
  largestAcknowledged :: nat
  ackDelay :: nat
  ackBlockCount :: nat
  firstAckBlock :: nat
  ackBlocks :: "AckBlock list"
  ECT0count :: "nat option"
  ECT1count :: "nat option"
  CEcount :: "nat option"

text \<open>The STREAM frame keeps the arguments of \<open>createStreamFrame(streamID, data, fin,
  len, offset)\<close> and the length set by \<open>setLength\<close>.\<close>

record StreamFrame =
  streamID :: nat
  data :: Buffer
  fin :: bool
  len :: bool
  dataOffset :: nat
  dataLength :: nat

text \<open>One constructor per frame class, with the arguments its \<open>FrameFactory\<close> method
  receives. A reason phrase is the byte sequence its string is decoded from; a connection
  ID is its buffer and its length.\<close>

datatype Frame =
    PaddingFrame nat
  | RstStreamFrame nat nat nat
  | ConnectionCloseFrame nat "byte list"
  | ApplicationCloseFrame nat "byte list"
  | MaxDataFrame nat
  | MaxStreamDataFrame nat nat
  | MaxStreamIdFrame nat
  | PingFrame
  | BlockedFrame nat
  | StreamBlockedFrame nat nat
  | StreamIdBlockedFrame nat
  | NewConnectionIdFrame nat "Buffer \<times> nat" Buffer
  | StopSendingFrame nat nat
  | PathChallengeFrame Buffer
  | PathResponseFrame Buffer
  | CryptoFrame Buffer nat
  | Ack AckFrame
  | Stream StreamFrame

text \<open>The interface \<open>FrameOffset\<close> is the pair \<open>(frame, offset)\<close>.\<close>

type_synonym FrameOffset = "Frame \<times> nat"

section \<open>The frame parser\<close>

text \<open>\<open>parsePadding\<close>: the loop skips the zero bytes from \<open>offset\<close> on.\<close>

fun skip_zeros :: "Buffer \<Rightarrow> nat \<Rightarrow> nat" where
  "skip_zeros [] offset = offset"
| "skip_zeros (b # bs) offset = (if b = 0 then skip_zeros bs (offset + 1) else offset)"

definition parsePadding :: "Buffer \<Rightarrow> nat \<Rightarrow> error + FrameOffset" where
  "parsePadding buffer offset =
     (let startOffset = offset;
          offset = skip_zeros (drop offset buffer) offset;
          paddingSize = offset - startOffset
      in Inr (PaddingFrame paddingSize, offset))"

definition parseRstStream :: "Buffer \<Rightarrow> nat \<Rightarrow> error + FrameOffset" where
  "parseRstStream buffer offset =
     bind_err (VLIE_decode buffer offset) (\<lambda>(streamID, offset).
     bind_err (readUInt16BE buffer offset) (\<lambda>applicationErrorCode.
     bind_err (VLIE_decode buffer (offset + 2)) (\<lambda>(finalOffset, offset).
       Inr (RstStreamFrame streamID applicationErrorCode finalOffset, offset))))"

text \<open>\<open>parseClose\<close>: the phrase is \<open>buffer.toString('utf8', phraseLength.offset,
  phraseLength.value.toNumber())\<close>, the value being passed as the end index.\<close>

definition parseClose :: "FrameType \<Rightarrow> byte \<Rightarrow> Buffer \<Rightarrow> nat \<Rightarrow> error + FrameOffset" where
  "parseClose c type buffer offset =
     bind_err (readUInt16BE buffer offset) (\<lambda>errorCode.
     bind_err (VLIE_decode buffer (offset + 2)) (\<lambda>(phraseLength_value, phraseLength_offset).
       let phrase = toString_utf8 buffer phraseLength_offset phraseLength_value;
           offset = phraseLength_offset + phraseLength_value
       in if type = APPLICATION_CLOSE c
          then Inr (ApplicationCloseFrame errorCode phrase, offset)
          else Inr (ConnectionCloseFrame errorCode phrase, offset)))"

definition parseMaxData :: "Buffer \<Rightarrow> nat \<Rightarrow> error + FrameOffset" where
  "parseMaxData buffer offset =
     bind_err (VLIE_decode buffer offset) (\<lambda>(maxData, offset).
       Inr (MaxDataFrame maxData, offset))"

definition parseMaxStreamData :: "Buffer \<Rightarrow> nat \<Rightarrow> error + FrameOffset" where
  "parseMaxStreamData buffer offset =
     bind_err (VLIE_decode buffer offset) (\<lambda>(streamID, streamID_offset).
     bind_err (VLIE_decode buffer streamID_offset) (\<lambda>(maxStreamData, offset).
       Inr (MaxStreamDataFrame streamID maxStreamData, offset)))"

definition parseMaxStreamId :: "Buffer \<Rightarrow> nat \<Rightarrow> error + FrameOffset" where
  "parseMaxStreamId buffer offset =
     bind_err (VLIE_decode buffer offset) (\<lambda>(maxStreamID, offset).
       Inr (MaxStreamIdFrame maxStreamID, offset))"

definition parsePing :: "Buffer \<Rightarrow> nat \<Rightarrow> error + FrameOffset" where
  "parsePing buffer offset = Inr (PingFrame, offset)"

definition parseBlocked :: "Buffer \<Rightarrow> nat \<Rightarrow> error + FrameOffset" where
  "parseBlocked buffer offset =
     bind_err (VLIE_decode buffer offset) (\<lambda>(blockedOffset, offset).
       Inr (BlockedFrame blockedOffset, offset))"

definition parseStreamBlocked :: "Buffer \<Rightarrow> nat \<Rightarrow> error + FrameOffset" where
  "parseStreamBlocked buffer offset =
     bind_err (VLIE_decode buffer offset) (\<lambda>(streamID, streamID_offset).
     bind_err (VLIE_decode buffer streamID_offset) (\<lambda>(blockedOffset, offset).
       Inr (StreamBlockedFrame streamID blockedOffset, offset)))"

definition parseStreamIdBlocked :: "Buffer \<Rightarrow> nat \<Rightarrow> error + FrameOffset" where
  "parseStreamIdBlocked buffer offset =
     bind_err (VLIE_decode buffer offset) (\<lambda>(streamID, offset).
       Inr (StreamIdBlockedFrame streamID, offset))"

definition parseNewConnectionId :: "Buffer \<Rightarrow> nat \<Rightarrow> error + FrameOffset" where
  "parseNewConnectionId buffer offset =
     bind_err (VLIE_decode buffer offset) (\<lambda>(sequence, offset).
     bind_err (readUInt8 buffer offset) (\<lambda>b.
       let connectionIDLength = unat b; offset = offset + 1 in
     bind_err (Buffer_alloc connectionIDLength) (\<lambda>connectionIDBuffer.
     bind_err (Buffer_copy buffer connectionIDBuffer offset (offset + connectionIDLength))
       (\<lambda>connectionIDBuffer.
       let offset = offset + connectionIDLength in
     bind_err (Buffer_alloc 16) (\<lambda>statelessResetToken.
     bind_err (Buffer_copy buffer statelessResetToken offset (offset + 16))
       (\<lambda>statelessResetToken.
       let offset = offset + 16;
           connectionID = (connectionIDBuffer, connectionIDLength)
       in Inr (NewConnectionIdFrame sequence connectionID statelessResetToken, offset)))))))"

definition parseStopSending :: "Buffer \<Rightarrow> nat \<Rightarrow> error + FrameOffset" where
  "parseStopSending buffer offset =
     bind_err (VLIE_decode buffer offset) (\<lambda>(streamID, streamID_offset).
     bind_err (readUInt16BE buffer streamID_offset) (\<lambda>appErrorCode.
       Inr (StopSendingFrame streamID appErrorCode, streamID_offset + 2)))"

text \<open>The \<open>for\<close> loop of \<open>parseAck\<close>, by recursion on the number of blocks still to
  read: each round decodes a gap and a block.\<close>

fun parseAckBlocks :: "Buffer \<Rightarrow> nat \<Rightarrow> nat \<Rightarrow> AckBlock list \<Rightarrow> error + (AckBlock list \<times> nat)" where
  "parseAckBlocks buffer offset 0 blocks = Inr (blocks, offset)"
| "parseAckBlocks buffer offset (Suc n) blocks =
     bind_err (VLIE_decode buffer offset) (\<lambda>(gap, gap_offset).
     bind_err (VLIE_decode buffer gap_offset) (\<lambda>(block, offset).
       parseAckBlocks buffer offset n (blocks @ [(gap, block)])))"

definition parseAck :: "bool \<Rightarrow> Buffer \<Rightarrow> nat \<Rightarrow> error + FrameOffset" where
  "parseAck ecn buffer offset =
     bind_err (VLIE_decode buffer offset) (\<lambda>(largest, largest_offset).
     bind_err (VLIE_decode buffer largest_offset) (\<lambda>(delay, delay_offset).
     bind_err (VLIE_decode buffer delay_offset) (\<lambda>(blockCount, blockCount_offset).
     bind_err (VLIE_decode buffer blockCount_offset) (\<lambda>(firstBlock, offset).
     bind_err (parseAckBlocks buffer offset blockCount []) (\<lambda>(blocks, offset).
       let frame = \<lparr> containsECNinfo = ecn, largestAcknowledged = largest, ackDelay = delay,
                     ackBlockCount = blockCount, firstAckBlock = firstBlock, ackBlocks = blocks,
                     ECT0count = None, ECT1count = None, CEcount = None \<rparr>
       in if ecn then
            if offset = length buffer then Inr (Ack frame, offset)
            else
              bind_err (VLIE_decode buffer offset) (\<lambda>(ECT0, ECT0_offset).
              bind_err (VLIE_decode buffer ECT0_offset) (\<lambda>(ECT1, ECT1_offset).
              bind_err (VLIE_decode buffer ECT1_offset) (\<lambda>(CE, CE_offset).
                Inr (Ack (frame\<lparr> ECT0count := Some ECT0, ECT1count := Some ECT1,
                                  CEcount := Some CE \<rparr>), CE_offset))))
          else Inr (Ack frame, offset))))))"

definition parsePathChallenge :: "Buffer \<Rightarrow> nat \<Rightarrow> error + FrameOffset" where
  "parsePathChallenge buffer offset =
     bind_err (Buffer_alloc PATH_CHALLENGE_PAYLOAD_SIZE) (\<lambda>payload.
     bind_err (Buffer_copy buffer payload offset (PATH_CHALLENGE_PAYLOAD_SIZE + offset)) (\<lambda>payload.
       Inr (PathChallengeFrame payload, offset + PATH_CHALLENGE_PAYLOAD_SIZE)))"

definition parsePathResponse :: "Buffer \<Rightarrow> nat \<Rightarrow> error + FrameOffset" where
  "parsePathResponse buffer offset =
     bind_err (Buffer_alloc PATH_RESPONSE_PAYLOAD_SIZE) (\<lambda>payload.
     bind_err (Buffer_copy buffer payload offset (PATH_RESPONSE_PAYLOAD_SIZE + offset)) (\<lambda>payload.
       Inr (PathResponseFrame payload, offset + PATH_RESPONSE_PAYLOAD_SIZE)))"

definition parseCrypto :: "Buffer \<Rightarrow> nat \<Rightarrow> error + FrameOffset" where
  "parseCrypto buffer offset =
     bind_err (VLIE_decode buffer offset) (\<lambda>(cryptooffset, offset).
     bind_err (VLIE_decode buffer offset) (\<lambda>(n, offset).
     bind_err (Buffer_alloc n) (\<lambda>payload.
     bind_err (Buffer_copy buffer payload offset (n + offset)) (\<lambda>payload.
       Inr (CryptoFrame payload cryptooffset, offset + n)))))"

text \<open>\<open>parseStream\<close>: the flags are the three low bits of the type byte. Without the
  OFF flag the data offset stays \<open>new Bignum(0)\<close>; without the LEN flag the data length
  stays \<open>buffer.byteLength - offset\<close>, taken after the stream ID and the offset field (the
  offset a successful decode returns is inside the buffer, so the difference is not
  negative). The frame is created with \<open>len = true\<close> whatever the flag.\<close>

definition parseStream :: "byte \<Rightarrow> Buffer \<Rightarrow> nat \<Rightarrow> error + FrameOffset" where
  "parseStream type buffer offset =
     (let fin = (type AND 0x01 \<noteq> 0); len = (type AND 0x02 \<noteq> 0); off = (type AND 0x04 \<noteq> 0) in
      bind_err (VLIE_decode buffer offset) (\<lambda>(streamID, offset).
      bind_err (if off then VLIE_decode buffer offset else Inr (0, offset)) (\<lambda>(dataOffset, offset).
      bind_err (if len then VLIE_decode buffer offset else Inr (length buffer - offset, offset))
        (\<lambda>(dataLength, offset).
      bind_err (Buffer_alloc dataLength) (\<lambda>payload.
      bind_err (Buffer_copy buffer payload offset (dataLength + offset)) (\<lambda>payload.
        Inr (Stream \<lparr> streamID = streamID, data = payload, fin = fin, len = True,
                      dataOffset = dataOffset, dataLength = dataLength \<rparr>,
             offset + dataLength)))))))"

text \<open>\<open>parseFrame\<close> returns a \<open>FrameOffset\<close> or \<open>undefined\<close> (\<open>None\<close>): at the end
  of the buffer, and for a type byte that no \<open>case\<close> label and no STREAM type matches
  (after logging it).\<close>

definition defined :: "error + FrameOffset \<Rightarrow> error + FrameOffset option" where
  "defined r = bind_err r (\<lambda>frameOffset. Inr (Some frameOffset))"

definition parseFrame :: "FrameType \<Rightarrow> Buffer \<Rightarrow> nat \<Rightarrow> error + FrameOffset option" where
  "parseFrame c buffer offset =
     (if length buffer \<le> offset then Inr None
      else let type = buffer ! offset; offset = offset + 1 in
        if type = PADDING c then defined (parsePadding buffer offset)
        else if type = RST_STREAM c then defined (parseRstStream buffer offset)
        else if type = CONNECTION_CLOSE c then defined (parseClose c (CONNECTION_CLOSE c) buffer offset)
        else if type = APPLICATION_CLOSE c then defined (parseClose c (APPLICATION_CLOSE c) buffer offset)
        else if type = MAX_DATA c then defined (parseMaxData buffer offset)
        else if type = MAX_STREAM_DATA c then defined (parseMaxStreamData buffer offset)
        else if type = MAX_STREAM_ID c then defined (parseMaxStreamId buffer offset)
        else if type = PING c then defined (parsePing buffer offset)
        else if type = BLOCKED c then defined (parseBlocked buffer offset)
        else if type = STREAM_BLOCKED c then defined (parseStreamBlocked buffer offset)
        else if type = STREAM_ID_BLOCKED c then defined (parseStreamIdBlocked buffer offset)
        else if type = NEW_CONNECTION_ID c then defined (parseNewConnectionId buffer offset)
        else if type = STOP_SENDING c then defined (parseStopSending buffer offset)
        else if type = PATH_CHALLENGE c then defined (parsePathChallenge buffer offset)
        else if type = PATH_RESPONSE c then defined (parsePathResponse buffer offset)
        else if type = CRYPTO c then defined (parseCrypto buffer offset)
        else if type = ACK c then defined (parseAck False buffer offset)
        else if type = ACK_ECN c then defined (parseAck True buffer offset)
        else if STREAM c \<le> type \<and> type \<le> STREAM_MAX_NR c then defined (parseStream type buffer offset)
        else Inr None)"

text \<open>\<open>parse\<close>: the \<open>while\<close> loop pushes frames until \<open>parseFrame\<close> returns
  \<open>undefined\<close>. The loop is defined without assuming that it ends: \<open>None\<close> stands for
  a loop that runs forever, \<open>Some (Inl e)\<close> for an exception and \<open>Some (Inr frames)\<close>
  for the returned list.\<close>

lemma case_sum_mono [partial_function_mono]:
  assumes "\<And>e. mono_option (\<lambda>f. A f e)" and "\<And>x. mono_option (\<lambda>f. B f x)"
  shows "mono_option (\<lambda>f. case s of Inl e \<Rightarrow> A f e | Inr x \<Rightarrow> B f x)"
  using assms by (cases s) simp_all

lemma case_option_mono [partial_function_mono]:
  assumes "mono_option (\<lambda>f. A f)" and "\<And>x. mono_option (\<lambda>f. B f x)"
  shows "mono_option (\<lambda>f. case s of None \<Rightarrow> A f | Some x \<Rightarrow> B f x)"
  using assms by (cases s) simp_all

partial_function (option) parse_loop ::
    "FrameType \<Rightarrow> Buffer \<Rightarrow> Frame list \<Rightarrow> error + FrameOffset option \<Rightarrow> (error + Frame list) option" where
  "parse_loop c msg frames frameOffset =
     (case frameOffset of
        Inl e \<Rightarrow> Some (Inl e)
      | Inr None \<Rightarrow> Some (Inr frames)
      | Inr (Some (frame, offset)) \<Rightarrow> parse_loop c msg (frames @ [frame]) (parseFrame c msg offset))"

definition parse :: "FrameType \<Rightarrow> Buffer \<Rightarrow> nat \<Rightarrow> (error + Frame list) option" where
  "parse c msg offset = parse_loop c msg [] (parseFrame c msg offset)"

text \<open>The \<open>case\<close> labels of the \<open>switch\<close> in \<open>parseFrame\<close>, in its order. A type
  byte is unidentified when it equals none of them and is not a STREAM type.\<close>

definition case_labels :: "FrameType \<Rightarrow> byte list" where
  "case_labels c = [PADDING c, RST_STREAM c, CONNECTION_CLOSE c, APPLICATION_CLOSE c, MAX_DATA c,
     MAX_STREAM_DATA c, MAX_STREAM_ID c, PING c, BLOCKED c, STREAM_BLOCKED c, STREAM_ID_BLOCKED c,
     NEW_CONNECTION_ID c, STOP_SENDING c, PATH_CHALLENGE c, PATH_RESPONSE c, CRYPTO c, ACK c,
     ACK_ECN c]"

definition unidentified :: "FrameType \<Rightarrow> byte \<Rightarrow> bool" where
  "unidentified c type \<longleftrightarrow>
     type \<notin> set (case_labels c) \<and> \<not> (STREAM c \<le> type \<and> type \<le> STREAM_MAX_NR c)"


section \<open>Congestion control\<close>

text \<open>
  Modelled from the spec: the arithmetic of the class \<open>Bignum\<close> (\<open>src/types/bignum.ts\<close>
  is not among the sources). Section 4.7 writes the window update as \<open>cwnd \<times> 0.5\<close>;
  the values are exact numbers, and \<open>add\<close>, \<open>subtract\<close>, \<open>multiply\<close>, \<open>max\<close>,
  \<open>lessThan\<close>, \<open>lessThanOrEqual\<close> and \<open>greaterThan\<close> are the exact operations and
  comparisons. \<open>Bignum.infinity()\<close> is the absent value of an optional number.
\<close>

type_synonym Bignum = rat

datatype PacketType =
  Initial | Retry | Handshake | VersionNegotiation | Protected0RTT | Protected1RTT

text \<open>What the controller reads of a packet: its type, the packet number of its header
  (\<open>undefined\<close> until one is assigned; Version Negotiation and Retry packets never get
  one), \<open>isAckOnly()\<close>, and \<open>toBuffer(connection).byteLength\<close>.\<close>

record BasePacket =
  packetType :: PacketType
  packetNumber :: "Bignum option"
  ackOnly :: bool
  byteLength :: nat

definition DEFAULT_MSS :: Bignum where
  "DEFAULT_MSS = 1460"

definition INITIAL_WINDOW :: Bignum where
  "INITIAL_WINDOW = DEFAULT_MSS * 10"

definition MINIMUM_WINDOW :: Bignum where
  "MINIMUM_WINDOW = DEFAULT_MSS * 2"

definition LOSS_REDUCTION_FACTOR :: Bignum where
  "LOSS_REDUCTION_FACTOR = 1 / 2"

text \<open>
  The controller's fields, and what it touches of its connection: \<open>txNumber\<close> gives, for
  a packet type, the next packet number of the packet-number space of its encryption
  context (\<open>None\<close> when \<open>getEncryptionContextByPacketType\<close> returns \<open>undefined\<close>), and
  \<open>sent\<close> lists the packets handed to the socket, oldest first (each of them is also
  announced by a \<open>PACKET_SENT\<close> event).
\<close>

record CongestionControl =
  packetsQueue :: "BasePacket list"
  bytesInFlight :: Bignum
  congestionWindow :: Bignum
  endOfRecovery :: Bignum
  sshtresh :: "Bignum option"
  txNumber :: "PacketType \<Rightarrow> Bignum option"
  sent :: "BasePacket list"

text \<open>The constructor, for a connection whose packet-number spaces are \<open>tx\<close>.\<close>

definition newCongestionControl :: "(PacketType \<Rightarrow> Bignum option) \<Rightarrow> CongestionControl" where
  "newCongestionControl tx =
     \<lparr> packetsQueue = [], bytesInFlight = 0, congestionWindow = INITIAL_WINDOW,
       endOfRecovery = 0, sshtresh = None, txNumber = tx, sent = [] \<rparr>"

definition inRecovery :: "CongestionControl \<Rightarrow> Bignum \<Rightarrow> bool" where
  "inRecovery cc pn \<longleftrightarrow> pn \<le> endOfRecovery cc"

definition onPacketSent :: "CongestionControl \<Rightarrow> BasePacket \<Rightarrow> CongestionControl" where
  "onPacketSent cc packetSent =
     (if \<not> ackOnly packetSent
      then cc\<lparr> bytesInFlight := bytesInFlight cc + of_nat (byteLength packetSent) \<rparr>
      else cc)"

text \<open>
  Modelled from the spec: \<open>PacketNumberSpace.getNext\<close> (section 4.4: \<open>next()\<close> returns
  the next TX number and the numbers increase without gaps), as the update of
  \<open>txNumber\<close> below.

  One round of the \<open>while\<close> loop of \<open>sendPackets\<close>: the head of the queue is shifted out
  (\<open>shift()\<close> on an empty queue gives \<open>undefined\<close>, and nothing is sent), numbered by its
  packet-number space when it has one, handed to the socket and accounted for by
  \<open>onPacketSent\<close>.
\<close>

definition sendPackets_round :: "CongestionControl \<Rightarrow> CongestionControl" where
  "sendPackets_round cc =
     (case packetsQueue cc of
        [] \<Rightarrow> cc
      | packet # rest \<Rightarrow>
          let cc = cc\<lparr> packetsQueue := rest \<rparr>;
              (packet, cc) =
                (case txNumber cc (packetType packet) of
                   Some pn \<Rightarrow> (packet\<lparr> packetNumber := Some pn \<rparr>,
                               cc\<lparr> txNumber := (txNumber cc)(packetType packet \<mapsto> pn + 1) \<rparr>)
                 | None \<Rightarrow> (packet, cc));
              cc = cc\<lparr> sent := sent cc @ [packet] \<rparr>
          in onPacketSent cc packet)"

lemma sendPackets_round_queue:
  "packetsQueue (sendPackets_round cc) = tl (packetsQueue cc)"
  by (simp add: sendPackets_round_def onPacketSent_def Let_def split: option.splits list.splits)

function sendPackets :: "CongestionControl \<Rightarrow> CongestionControl" where
  "sendPackets cc =
     (if bytesInFlight cc < congestionWindow cc \<and> length (packetsQueue cc) > 0
      then sendPackets (sendPackets_round cc)
      else cc)"
  by pat_completeness auto
termination
  by (relation "measure (\<lambda>cc. length (packetsQueue cc))") (auto simp add: sendPackets_round_queue)

declare sendPackets.simps [simp del]

definition queuePackets :: "CongestionControl \<Rightarrow> BasePacket list \<Rightarrow> CongestionControl" where
  "queuePackets cc packets = sendPackets (cc\<lparr> packetsQueue := packetsQueue cc @ packets \<rparr>)"

definition onRetransmissionTimeoutVerified :: "CongestionControl \<Rightarrow> CongestionControl" where
  "onRetransmissionTimeoutVerified cc = cc\<lparr> congestionWindow := MINIMUM_WINDOW \<rparr>"

text \<open>Modelled from the spec: \<open>Bignum.divide\<close>, the exact quotient of congestion
  avoidance (section 4.7: \<open>cwnd += max_datagram_size \<times> acked_bytes / cwnd\<close>), dividing
  by 0 being an error.

  \<open>onPacketAcked\<close>: a \<open>sshtresh\<close> of \<open>Bignum.infinity()\<close> is above every window.\<close>

definition onPacketAcked :: "CongestionControl \<Rightarrow> BasePacket \<Rightarrow> error + CongestionControl" where
  "onPacketAcked cc ackedPacket =
     (if ackOnly ackedPacket then Inr cc
      else
        let packetByteSize = of_nat (byteLength ackedPacket);
            cc = cc\<lparr> bytesInFlight := bytesInFlight cc - packetByteSize \<rparr>
        in case packetNumber ackedPacket of
             None \<Rightarrow> Inl TypeError
           | Some pn \<Rightarrow>
               if inRecovery cc pn then Inr cc
               else if (case sshtresh cc of None \<Rightarrow> True | Some t \<Rightarrow> congestionWindow cc < t)
               then Inr (sendPackets (cc\<lparr> congestionWindow := congestionWindow cc + packetByteSize \<rparr>))
               else if congestionWindow cc = 0 then Inl OtherError
               else Inr (sendPackets (cc\<lparr> congestionWindow :=
                      congestionWindow cc + (DEFAULT_MSS * packetByteSize) / congestionWindow cc \<rparr>)))"

text \<open>The \<open>forEach\<close> of \<open>onPacketsLost\<close>, carrying the controller and \<open>largestLost\<close>.
  Reading the packet number of a packet that has none is a \<open>TypeError\<close>.\<close>

fun forEach_lost ::
    "BasePacket list \<Rightarrow> CongestionControl \<times> Bignum \<Rightarrow> error + CongestionControl \<times> Bignum" where
  "forEach_lost [] (cc, largestLost) = Inr (cc, largestLost)"
| "forEach_lost (lostPacket # rest) (cc, largestLost) =
     (if ackOnly lostPacket then forEach_lost rest (cc, largestLost)
      else let cc = cc\<lparr> bytesInFlight := bytesInFlight cc - of_nat (byteLength lostPacket) \<rparr>
           in case packetNumber lostPacket of
                None \<Rightarrow> Inl TypeError
              | Some pn \<Rightarrow> forEach_lost rest (cc, if pn > largestLost then pn else largestLost))"

definition onPacketsLost :: "CongestionControl \<Rightarrow> BasePacket list \<Rightarrow> error + CongestionControl" where
  "onPacketsLost cc lostPackets =
     bind_err (forEach_lost lostPackets (cc, 0)) (\<lambda>(cc, largestLost).
       let cc = (if \<not> inRecovery cc largestLost
                 then let cc = cc\<lparr> endOfRecovery := largestLost \<rparr>;
                          cc = cc\<lparr> congestionWindow := congestionWindow cc * LOSS_REDUCTION_FACTOR \<rparr>;
                          cc = cc\<lparr> congestionWindow := max (congestionWindow cc) MINIMUM_WINDOW \<rparr>
                      in cc\<lparr> sshtresh := Some (congestionWindow cc) \<rparr>
                 else cc)
       in Inr (sendPackets cc))"

text \<open>The largest lost packet number, in the spec's words: the greatest packet number
  among the lost packets that are not ACK-only, and 0 when there is none.\<close>

definition largest_lost :: "BasePacket list \<Rightarrow> Bignum" where
  "largest_lost lostPackets =
     fold max (map (the \<circ> packetNumber) (filter (\<lambda>p. \<not> ackOnly p) lostPackets)) 0"

text \<open>The controllers that the constructor and the controller's own operations
  produce.\<close>

inductive reachable :: "CongestionControl \<Rightarrow> bool" where
  constructed: "reachable (newCongestionControl tx)"
| queued: "reachable cc \<Longrightarrow> reachable (queuePackets cc packets)"
| acked: "reachable cc \<Longrightarrow> onPacketAcked cc ackedPacket = Inr cc' \<Longrightarrow> reachable cc'"
| lost: "reachable cc \<Longrightarrow> onPacketsLost cc lostPackets = Inr cc' \<Longrightarrow> reachable cc'"
| timeout: "reachable cc \<Longrightarrow> reachable (onRetransmissionTimeoutVerified cc)"

text \<open>
  Sample packets and controllers, for evaluating the controller: packet-number spaces
  that all start at 0; an ACK-only packet, a 1200-byte and a 1460-byte packet; the
  controller after queueing ten 1460-byte packets and the ACK-only packet on a new
  connection; and the controllers after queueing two 1200-byte packets, after the loss
  of the second of them (packet number 1), and after the loss of the first (packet
  number 0) as well.
\<close>

definition tx0 :: "PacketType \<Rightarrow> Bignum option" where
  "tx0 = (\<lambda>t. Some 0)"

definition ack_packet :: BasePacket where
  "ack_packet = \<lparr> packetType = Protected1RTT, packetNumber = None, ackOnly = True, byteLength = 40 \<rparr>"

definition unsent :: BasePacket where
  "unsent = \<lparr> packetType = Protected1RTT, packetNumber = None, ackOnly = False, byteLength = 1200 \<rparr>"

definition full_size :: BasePacket where
  "full_size = \<lparr> packetType = Protected1RTT, packetNumber = None, ackOnly = False, byteLength = 1460 \<rparr>"

definition window_filled :: CongestionControl where
  "window_filled = queuePackets (newCongestionControl tx0)
     [full_size, full_size, full_size, full_size, full_size,
      full_size, full_size, full_size, full_size, full_size, ack_packet]"

definition two_sent :: CongestionControl where
  "two_sent = \<lparr> packetsQueue = [], bytesInFlight = 2400, congestionWindow = 14600,
     endOfRecovery = 0, sshtresh = None, txNumber = tx0(Protected1RTT \<mapsto> 2),
     sent = [unsent\<lparr> packetNumber := Some 0 \<rparr>, unsent\<lparr> packetNumber := Some 1 \<rparr>] \<rparr>"

definition one_lost :: CongestionControl where
  "one_lost = two_sent\<lparr> bytesInFlight := 1200, endOfRecovery := 1, congestionWindow := 7300,
     sshtresh := Some 7300 \<rparr>"

definition both_lost :: CongestionControl where
  "both_lost = one_lost\<lparr> bytesInFlight := 0 \<rparr>"

section \<open>Transport parameters\<close>

text \<open>The numeric enum \<open>TransportParameterType\<close>: its members, and the list of its
  values. For a numeric key, \<open>key in TransportParameterType\<close> holds exactly when the key is
  one of these values (the enum object maps each value back to its name).\<close>

definition INITIAL_MAX_STREAM_DATA_BIDI_LOCAL :: nat where "INITIAL_MAX_STREAM_DATA_BIDI_LOCAL = 0x00"
definition INITIAL_MAX_DATA :: nat where "INITIAL_MAX_DATA = 0x01"
definition INITIAL_MAX_BIDI_STREAMS :: nat where "INITIAL_MAX_BIDI_STREAMS = 0x02"
definition IDLE_TIMEOUT :: nat where "IDLE_TIMEOUT = 0x03"
definition PREFERRED_ADDRESS :: nat where "PREFERRED_ADDRESS = 0x04"
definition MAX_PACKET_SIZE :: nat where "MAX_PACKET_SIZE = 0x05"
definition STATELESS_RESET_TOKEN :: nat where "STATELESS_RESET_TOKEN = 0x06"
definition ACK_DELAY_EXPONENT :: nat where "ACK_DELAY_EXPONENT = 0x07"
definition INITIAL_MAX_UNI_STREAMS :: nat where "INITIAL_MAX_UNI_STREAMS = 0x08"
definition DISABLE_MIGRATION :: nat where "DISABLE_MIGRATION = 0x09"
definition INITIAL_MAX_STREAM_DATA_BIDI_REMOTE :: nat where "INITIAL_MAX_STREAM_DATA_BIDI_REMOTE = 0x0a"
definition INITIAL_MAX_STREAM_DATA_UNI :: nat where "INITIAL_MAX_STREAM_DATA_UNI = 0x0b"
definition MAX_ACK_DELAY :: nat where "MAX_ACK_DELAY = 0x0c"
definition ORIGINAL_CONNECTION_ID :: nat where "ORIGINAL_CONNECTION_ID = 0x0d"

definition TransportParameterType :: "nat list" where
  "TransportParameterType =
     [INITIAL_MAX_STREAM_DATA_BIDI_LOCAL, INITIAL_MAX_DATA, INITIAL_MAX_BIDI_STREAMS, IDLE_TIMEOUT,
      PREFERRED_ADDRESS, MAX_PACKET_SIZE, STATELESS_RESET_TOKEN, ACK_DELAY_EXPONENT,
      INITIAL_MAX_UNI_STREAMS, DISABLE_MIGRATION, INITIAL_MAX_STREAM_DATA_BIDI_REMOTE,
      INITIAL_MAX_STREAM_DATA_UNI, MAX_ACK_DELAY, ORIGINAL_CONNECTION_ID]"

text \<open>A parsed value is a number (1 to 4 bytes), a buffer (more than 4 bytes) or \<open>true\<close>
  (no byte). The fields of \<open>TransportParameters\<close> hold such values; those the
  constructor does not set are \<open>undefined\<close> (\<open>None\<close>) until set.\<close>

datatype TPValue = TPNumber nat | TPBuffer Buffer | TPTrue

record TransportParameters =
  isServer :: bool
  maxStreamDataBidiLocal :: TPValue
  maxStreamDataBidiRemote :: TPValue
  maxStreamDataUni :: TPValue
  maxData :: TPValue
  maxStreamIdBidi :: "TPValue option"
  maxStreamIdUni :: "TPValue option"
  idleTimeout :: TPValue
  maxPacketSize :: "TPValue option"
  statelessResetToken :: "TPValue option"
  ackDelayExponent :: "TPValue option"
  disableMigration :: "TPValue option"
  version :: Buffer

definition newTransportParameters :: "bool \<Rightarrow> nat \<Rightarrow> nat \<Rightarrow> nat \<Rightarrow> Buffer \<Rightarrow> TransportParameters" where
  "newTransportParameters server maxStreamData0 maxData0 idleTimeout0 version0 =
     \<lparr> isServer = server,
       maxStreamDataBidiLocal = TPNumber maxStreamData0,
       maxStreamDataBidiRemote = TPNumber maxStreamData0,
       maxStreamDataUni = TPNumber maxStreamData0,
       maxData = TPNumber maxData0,
       maxStreamIdBidi = None, maxStreamIdUni = None,
       idleTimeout = TPNumber idleTimeout0,
       maxPacketSize = None, statelessResetToken = None, ackDelayExponent = None,
       disableMigration = None,
       version = version0 \<rparr>"

definition setTransportParameter :: "TransportParameters \<Rightarrow> nat \<Rightarrow> TPValue \<Rightarrow> TransportParameters" where
  "setTransportParameter tp type v =
     (if type = INITIAL_MAX_STREAM_DATA_BIDI_LOCAL then tp\<lparr> maxStreamDataBidiLocal := v \<rparr>
      else if type = INITIAL_MAX_STREAM_DATA_BIDI_REMOTE then tp\<lparr> maxStreamDataBidiRemote := v \<rparr>
      else if type = INITIAL_MAX_STREAM_DATA_UNI then tp\<lparr> maxStreamDataUni := v \<rparr>
      else if type = INITIAL_MAX_DATA then tp\<lparr> maxData := v \<rparr>
      else if type = STATELESS_RESET_TOKEN then tp\<lparr> statelessResetToken := Some v \<rparr>
      else if type = IDLE_TIMEOUT then tp\<lparr> idleTimeout := v \<rparr>
      else if type = INITIAL_MAX_BIDI_STREAMS then tp\<lparr> maxStreamIdBidi := Some v \<rparr>
      else if type = INITIAL_MAX_UNI_STREAMS then tp\<lparr> maxStreamIdUni := Some v \<rparr>
      else if type = MAX_PACKET_SIZE then tp\<lparr> maxPacketSize := Some v \<rparr>
      else if type = ACK_DELAY_EXPONENT then tp\<lparr> ackDelayExponent := Some v \<rparr>
      else if type = DISABLE_MIGRATION then tp\<lparr> disableMigration := Some v \<rparr>
      else tp)"

text \<open>The value of one record, read at \<open>offset\<close> (just after the length field).\<close>

definition readValue :: "Buffer \<Rightarrow> nat \<Rightarrow> nat \<Rightarrow> error + TPValue" where
  "readValue buffer offset n =
     (if n > 4 then
        bind_err (Buffer_alloc n) (\<lambda>v.
        bind_err (Buffer_copy buffer v offset (offset + n)) (\<lambda>v. Inr (TPBuffer v)))
      else if n > 0 then bind_err (readUIntBE buffer offset n) (\<lambda>v. Inr (TPNumber v))
      else Inr TPTrue)"

text \<open>
  The \<open>while\<close> loop of \<open>fromExtensionBuffer\<close>. The object \<open>values\<close> is the list of its
  \<open>(type, value)\<close> entries in the order they were stored; \<open>type in values\<close> asks whether
  an entry has that type.
\<close>

function readParameters :: "Buffer \<Rightarrow> nat \<Rightarrow> (nat \<times> TPValue) list \<Rightarrow> error + (nat \<times> TPValue) list" where
  "readParameters buffer offset vals =
     (if offset < length buffer then
        case readUInt16BE buffer offset of
          Inl e \<Rightarrow> Inl e
        | Inr type \<Rightarrow>
            (case readUInt16BE buffer (offset + 2) of
               Inl e \<Rightarrow> Inl e
             | Inr n \<Rightarrow>
                 (case readValue buffer (offset + 4) n of
                    Inl e \<Rightarrow> Inl e
                  | Inr v \<Rightarrow>
                      if type \<in> fst ` set vals then Inl (QuicError TRANSPORT_PARAMETER_ERROR)
                      else readParameters buffer (offset + 4 + n) (vals @ [(type, v)])))
      else Inr vals)"
  by pat_completeness auto
termination
  by (relation "measure (\<lambda>(buffer, offset, vals). length buffer - offset)") auto

declare readParameters.simps [simp del]

text \<open>\<open>fromExtensionBuffer\<close>: after the loop, \<open>for (let key in values)\<close> visits the keys in
  ascending order and sets the parameters whose key is in the enum.\<close>

definition fromExtensionBuffer :: "bool \<Rightarrow> Buffer \<Rightarrow> Buffer \<Rightarrow> error + TransportParameters" where
  "fromExtensionBuffer server buffer version0 =
     bind_err (readParameters buffer 0 []) (\<lambda>vals.
       Inr (fold (\<lambda>(key, v) tp.
                    if key \<in> set TransportParameterType then setTransportParameter tp key v else tp)
                 (sort_key fst vals)
                 (newTransportParameters server 0 0 0 version0)))"

text \<open>
  A well-formed transport-parameter buffer, in the spec's words: the concatenation of
  records \<open>type(2) | length(2) | value(length)\<close>, for records given as pairs of a 16-bit
  type and a value of fewer than \<open>2^16\<close> bytes.
\<close>

definition encode_record :: "nat \<times> Buffer \<Rightarrow> Buffer" where
  "encode_record r =
     [of_nat (fst r div 256), of_nat (fst r mod 256),
      of_nat (length (snd r) div 256), of_nat (length (snd r) mod 256)] @ snd r"

definition encode_records :: "(nat \<times> Buffer) list \<Rightarrow> Buffer" where
  "encode_records rs = concat (map encode_record rs)"

definition well_formed :: "(nat \<times> Buffer) list \<Rightarrow> bool" where
  "well_formed rs = list_all (\<lambda>r. fst r < 65536 \<and> length (snd r) < 65536) rs"

definition known_tag :: "nat \<times> Buffer \<Rightarrow> bool" where
  "known_tag r \<longleftrightarrow> fst r \<in> set TransportParameterType"

text \<open>The value \<open>fromExtensionBuffer\<close> reads for a record whose value bytes are \<open>v\<close>:
  a buffer for more than 4 bytes, their big-endian number for 1 to 4 bytes, \<open>true\<close> for
  none.\<close>

definition tp_value :: "Buffer \<Rightarrow> TPValue" where
  "tp_value v = (if length v > 4 then TPBuffer v else if length v > 0 then TPNumber (be_value v) else TPTrue)"

text \<open>Storing the records of a list one by one into \<open>values\<close>, stopping at a type that
  is already stored.\<close>

fun store_all :: "(nat \<times> Buffer) list \<Rightarrow> (nat \<times> TPValue) list \<Rightarrow> error + (nat \<times> TPValue) list" where
  "store_all [] vals = Inr vals"
| "store_all (r # rs) vals =
     (if fst r \<in> fst ` set vals then Inl (QuicError TRANSPORT_PARAMETER_ERROR)
      else store_all rs (vals @ [(fst r, tp_value (snd r))]))"

text \<open>The body of the final \<open>for ... in\<close> loop of \<open>fromExtensionBuffer\<close>.\<close>

definition set_known :: "nat \<times> TPValue \<Rightarrow> TransportParameters \<Rightarrow> TransportParameters" where
  "set_known = (\<lambda>(key, v) tp.
     if key \<in> set TransportParameterType then setTransportParameter tp key v else tp)"

section \<open>The server's handling of a failed packet\<close>










section \<open>Properties of the frame parser\<close>

text \<open>The decoder on the spec's examples (section 8): \<open>0x3FFF\<close> in the 2-byte form and
  \<open>151288809941952652\<close> in the 8-byte form; and on an offset or a length class past
  the end.\<close>

lemma VLIE_decode_examples:
  "VLIE_decode [0x7F, 0xFF] 0 = Inr (0x3FFF, 2)"
  "VLIE_decode [0xC2, 0x19, 0x7C, 0x5E, 0xFF, 0x14, 0xE8, 0x8C] 0 = Inr (151288809941952652, 8)"
  "VLIE_decode [0x25] 0 = Inr (37, 1)"
  "VLIE_decode [0x25] 1 = Inl (QuicError FRAME_ENCODING_ERROR)"
  "VLIE_decode [0x7F] 0 = Inl (QuicError FRAME_ENCODING_ERROR)"
  by (simp_all add: VLIE_decode_def be_value_def)

lemma bind_err_Inr_iff:
  "bind_err m f = Inr y \<longleftrightarrow> (\<exists>x. m = Inr x \<and> f x = Inr y)"
  by (cases m) (simp_all add: bind_err_def)

lemma bind_err_Inl [simp]: "bind_err (Inl e) f = Inl e"
  by (simp add: bind_err_def)

lemma bind_err_Inr [simp]: "bind_err (Inr x) f = f x"
  by (simp add: bind_err_def)

lemma defined_Inr_iff:
  "defined r = Inr z \<longleftrightarrow> (\<exists>frameOffset. r = Inr frameOffset \<and> z = Some frameOffset)"
  by (cases r) (auto simp add: defined_def)

text \<open>What \<open>parseClose\<close> returns when its two reads succeed: the phrase is cut at the
  index \<open>L\<close>, not at \<open>e + L\<close>, while the returned offset is \<open>e + L\<close>.\<close>

lemma parseClose_result:
  assumes "readUInt16BE buffer offset = Inr errorCode"
    and "VLIE_decode buffer (offset + 2) = Inr (L, e)"
  shows "parseClose c type buffer offset =
           Inr ((if type = APPLICATION_CLOSE c then ApplicationCloseFrame else ConnectionCloseFrame)
                  errorCode (take (L - e) (drop e buffer)), e + L)"
  using assms by (simp add: parseClose_def toString_utf8_def)

text \<open>
  Claim C1. For a CONNECTION_CLOSE frame whose reason-phrase length \<open>L\<close> is decoded with
  the length field ending at offset \<open>e\<close>, the phrase should be the \<open>L\<close> bytes at
  \<open>[e, e + L)\<close> and the returned offset \<open>e + L\<close>. On the payload
  \<open>02 00 07 03 61 62 63\<close> (error code 7, \<open>L = 3\<close>, \<open>e = 4\<close>, phrase bytes
  \<open>61 62 63\<close>) the parser returns the offset \<open>7 = e + L\<close> but an empty phrase: it
  passes \<open>L\<close> as the end index of the phrase.
\<close>

theorem parseClose_phrase_cut_at_length_value:
  "parseFrame frame_types [0x02, 0x00, 0x07, 0x03, 0x61, 0x62, 0x63] 0
     = Inr (Some (ConnectionCloseFrame 7 [], 7))
   \<and> VLIE_decode [0x02, 0x00, 0x07, 0x03, 0x61, 0x62, 0x63] 3 = Inr (3, 4)
   \<and> take 3 (drop 4 [0x02, 0x00, 0x07, 0x03, 0x61, 0x62, 0x63 :: byte]) = [0x61, 0x62, 0x63]"
  by (simp add: parseFrame_def frame_types_def defined_def parseClose_def
      readUInt16BE_def VLIE_decode_def toString_utf8_def be_value_def Let_def)

subsection \<open>Every frame consumes its type byte\<close>

lemma VLIE_decode_offset:
  "VLIE_decode buffer offset = Inr (v, e) \<Longrightarrow> offset < e \<and> e \<le> length buffer"
  by (auto simp add: VLIE_decode_def Let_def split: if_splits)

lemma skip_zeros_ge: "offset \<le> skip_zeros bs offset"
proof (induction bs arbitrary: offset)
  case Nil
  show ?case by simp
next
  case (Cons b bs)
  from Cons.IH [of "offset + 1"] show ?case by simp
qed

lemma parsePadding_offset: "parsePadding buffer offset = Inr (f, e) \<Longrightarrow> offset \<le> e"
  by (auto simp add: parsePadding_def Let_def skip_zeros_ge)

lemma parseRstStream_offset: "parseRstStream buffer offset = Inr (f, e) \<Longrightarrow> offset \<le> e"
  by (fastforce simp add: parseRstStream_def bind_err_Inr_iff dest: VLIE_decode_offset)

lemma parseClose_offset: "parseClose c type buffer offset = Inr (f, e) \<Longrightarrow> offset \<le> e"
  by (fastforce simp add: parseClose_def bind_err_Inr_iff Let_def split: if_splits dest: VLIE_decode_offset)

lemma parseMaxData_offset: "parseMaxData buffer offset = Inr (f, e) \<Longrightarrow> offset \<le> e"
  by (fastforce simp add: parseMaxData_def bind_err_Inr_iff dest: VLIE_decode_offset)

lemma parseMaxStreamData_offset: "parseMaxStreamData buffer offset = Inr (f, e) \<Longrightarrow> offset \<le> e"
  by (fastforce simp add: parseMaxStreamData_def bind_err_Inr_iff dest: VLIE_decode_offset)

lemma parseMaxStreamId_offset: "parseMaxStreamId buffer offset = Inr (f, e) \<Longrightarrow> offset \<le> e"
  by (fastforce simp add: parseMaxStreamId_def bind_err_Inr_iff dest: VLIE_decode_offset)

lemma parsePing_offset: "parsePing buffer offset = Inr (f, e) \<Longrightarrow> offset \<le> e"
  by (simp add: parsePing_def)

lemma parseBlocked_offset: "parseBlocked buffer offset = Inr (f, e) \<Longrightarrow> offset \<le> e"
  by (fastforce simp add: parseBlocked_def bind_err_Inr_iff dest: VLIE_decode_offset)

lemma parseStreamBlocked_offset: "parseStreamBlocked buffer offset = Inr (f, e) \<Longrightarrow> offset \<le> e"
  by (fastforce simp add: parseStreamBlocked_def bind_err_Inr_iff dest: VLIE_decode_offset)

lemma parseStreamIdBlocked_offset: "parseStreamIdBlocked buffer offset = Inr (f, e) \<Longrightarrow> offset \<le> e"
  by (fastforce simp add: parseStreamIdBlocked_def bind_err_Inr_iff dest: VLIE_decode_offset)

lemma parseNewConnectionId_offset: "parseNewConnectionId buffer offset = Inr (f, e) \<Longrightarrow> offset \<le> e"
  by (fastforce simp add: parseNewConnectionId_def bind_err_Inr_iff Let_def dest: VLIE_decode_offset)

lemma parseStopSending_offset: "parseStopSending buffer offset = Inr (f, e) \<Longrightarrow> offset \<le> e"
  by (fastforce simp add: parseStopSending_def bind_err_Inr_iff dest: VLIE_decode_offset)

lemma parseAckBlocks_offset:
  "parseAckBlocks buffer offset n blocks = Inr (blocks', e) \<Longrightarrow> offset \<le> e \<and> e \<le> max offset (length buffer)"
proof (induction n arbitrary: offset blocks)
  case 0
  then show ?case by simp
next
  case (Suc n)
  from Suc.prems obtain gap o1 block o2 where
    d1: "VLIE_decode buffer offset = Inr (gap, o1)" and
    d2: "VLIE_decode buffer o1 = Inr (block, o2)" and
    r: "parseAckBlocks buffer o2 n (blocks @ [(gap, block)]) = Inr (blocks', e)"
    by (auto simp add: bind_err_Inr_iff)
  from Suc.IH [OF r] VLIE_decode_offset [OF d1] VLIE_decode_offset [OF d2]
  show ?case by auto
qed

lemma parseAck_offset: "parseAck ecn buffer offset = Inr (f, e) \<Longrightarrow> offset \<le> e"
  by (fastforce simp add: parseAck_def bind_err_Inr_iff Let_def split: if_splits
      dest: VLIE_decode_offset parseAckBlocks_offset)

lemma parsePathChallenge_offset: "parsePathChallenge buffer offset = Inr (f, e) \<Longrightarrow> offset \<le> e"
  by (auto simp add: parsePathChallenge_def bind_err_Inr_iff)

lemma parsePathResponse_offset: "parsePathResponse buffer offset = Inr (f, e) \<Longrightarrow> offset \<le> e"
  by (auto simp add: parsePathResponse_def bind_err_Inr_iff)

lemma parseCrypto_offset: "parseCrypto buffer offset = Inr (f, e) \<Longrightarrow> offset \<le> e"
  by (fastforce simp add: parseCrypto_def bind_err_Inr_iff dest: VLIE_decode_offset)

lemma parseStream_offset: "parseStream type buffer offset = Inr (f, e) \<Longrightarrow> offset \<le> e"
  by (fastforce simp add: parseStream_def bind_err_Inr_iff Let_def split: if_splits dest: VLIE_decode_offset)

lemmas sub_parser_offsets =
  parsePadding_offset parseRstStream_offset parseClose_offset parseMaxData_offset
  parseMaxStreamData_offset parseMaxStreamId_offset parsePing_offset parseBlocked_offset
  parseStreamBlocked_offset parseStreamIdBlocked_offset parseNewConnectionId_offset
  parseStopSending_offset parseAck_offset parsePathChallenge_offset parsePathResponse_offset
  parseCrypto_offset parseStream_offset

lemma parseFrame_offset:
  assumes "parseFrame c buffer offset = Inr (Some (f, e))"
  shows "offset < e \<and> offset < length buffer"
proof -
  from assms have inside: "offset < length buffer"
    by (auto simp add: parseFrame_def split: if_splits)
  from assms inside have "offset + 1 \<le> e"
    by (auto simp add: parseFrame_def Let_def defined_Inr_iff split: if_splits
        dest: sub_parser_offsets)
  with inside show ?thesis by simp
qed

lemma parse_loop_returns:
  "\<exists>r. parse_loop c msg frames frameOffset = Some r"
proof (induction "case frameOffset of Inr (Some (f, e)) \<Rightarrow> Suc (length msg - e) | _ \<Rightarrow> 0"
    arbitrary: frames frameOffset rule: less_induct)
  case less
  show ?case
  proof (cases frameOffset)
    case (Inl e)
    then show ?thesis by (simp add: parse_loop.simps)
  next
    case (Inr x)
    show ?thesis
    proof (cases x)
      case None
      with Inr show ?thesis by (simp add: parse_loop.simps)
    next
      case (Some fo)
      obtain frame offset where fo: "fo = (frame, offset)" by (cases fo)
      have step: "parse_loop c msg frames frameOffset
                    = parse_loop c msg (frames @ [frame]) (parseFrame c msg offset)"
        using Inr Some fo by (subst parse_loop.simps) simp
      have "(case parseFrame c msg offset of Inr (Some (f, e)) \<Rightarrow> Suc (length msg - e) | _ \<Rightarrow> 0)
              < (case frameOffset of Inr (Some (f, e)) \<Rightarrow> Suc (length msg - e) | _ \<Rightarrow> 0)"
        using Inr Some fo
        by (auto split: sum.splits option.splits dest!: parseFrame_offset)
      from less [OF this] step show ?thesis by simp
    qed
  qed
qed

lemma parse_loop_length:
  "parse_loop c msg frames (parseFrame c msg offset) = Some (Inr result)
     \<Longrightarrow> length result \<le> length frames + (length msg - offset)"
proof (induction "length msg - offset" arbitrary: frames offset rule: less_induct)
  case less
  show ?case
  proof (cases "parseFrame c msg offset")
    case (Inl e)
    with less.prems show ?thesis by (simp add: parse_loop.simps)
  next
    case (Inr x)
    show ?thesis
    proof (cases x)
      case None
      with Inr less.prems show ?thesis by (simp add: parse_loop.simps)
    next
      case (Some fo)
      obtain frame e where fo: "fo = (frame, e)" by (cases fo)
      from Inr Some fo have pf: "parseFrame c msg offset = Inr (Some (frame, e))" by simp
      from parseFrame_offset [OF pf] have adv: "offset < e" "offset < length msg" by simp_all
      from less.prems pf
      have "parse_loop c msg (frames @ [frame]) (parseFrame c msg e) = Some (Inr result)"
        by (subst (asm) parse_loop.simps) simp
      moreover from adv have "length msg - e < length msg - offset" by arith
      ultimately have "length result \<le> length (frames @ [frame]) + (length msg - e)"
        by (rule less.hyps [rotated])
      with adv show ?thesis by simp
    qed
  qed
qed

text \<open>
  Claim C10. \<open>parse\<close> returns (a list of frames or an exception) on every buffer and
  starting offset; every call of \<open>parseFrame\<close> that yields a frame yields an offset
  strictly greater than the offset at which the type byte was read; and the returned list
  has at most as many frames as there are bytes from the starting offset to the end of
  the buffer.
\<close>

theorem parse_terminates:
  "(\<exists>r. parse c msg offset = Some r)
   \<and> (\<forall>frame e. parseFrame c msg offset = Inr (Some (frame, e)) \<longrightarrow> offset < e)
   \<and> (\<forall>frames. parse c msg offset = Some (Inr frames) \<longrightarrow> length frames \<le> length msg - offset)"
proof (intro conjI allI impI)
  show "\<exists>r. parse c msg offset = Some r"
    unfolding parse_def by (rule parse_loop_returns)
next
  fix frame e
  assume "parseFrame c msg offset = Inr (Some (frame, e))"
  then show "offset < e" by (simp add: parseFrame_offset)
next
  fix frames
  assume "parse c msg offset = Some (Inr frames)"
  then show "length frames \<le> length msg - offset"
    unfolding parse_def by (auto dest: parse_loop_length)
qed

theorem parse_terminates_witness:
  "parse frame_types [0x00, 0x00, 0x00, 0x07] 0 = Some (Inr [PaddingFrame 2, PingFrame])
   \<and> parseFrame frame_types [0x00, 0x00, 0x00, 0x07] 0 = Inr (Some (PaddingFrame 2, 3))
   \<and> (0::nat) < 3
   \<and> length [PaddingFrame 2, PingFrame] \<le> length [0x00, 0x00, 0x00, 0x07 :: byte] - 0"
  using parse_terminates [of frame_types "[0x00, 0x00, 0x00, 0x07]" 0]
  by (simp add: parse_def parse_loop.simps parseFrame_def frame_types_def defined_def
      parsePadding_def parsePing_def)

subsection \<open>Unidentified frame types and padding\<close>

lemma parseFrame_unidentified:
  "offset < length buffer \<Longrightarrow> unidentified c (buffer ! offset) \<Longrightarrow> parseFrame c buffer offset = Inr None"
  by (auto simp add: parseFrame_def unidentified_def case_labels_def Let_def)

lemma parseFrame_stream:
  "offset < length buffer \<Longrightarrow> buffer ! offset \<notin> set (case_labels c)
   \<Longrightarrow> STREAM c \<le> buffer ! offset \<Longrightarrow> buffer ! offset \<le> STREAM_MAX_NR c
   \<Longrightarrow> parseFrame c buffer offset = defined (parseStream (buffer ! offset) buffer (offset + 1))"
  by (simp add: parseFrame_def case_labels_def Let_def)

text \<open>
  Claim C3 (as amended). When the byte at the parse position matches no \<open>case\<close> label and
  is not a STREAM type, \<open>parseFrame\<close> returns \<open>undefined\<close> and raises nothing: \<open>parse\<close>
  returns normally with the frames decoded before that byte (none when it is the first),
  and the rest of the payload is left unparsed.
\<close>

theorem parse_unidentified_type_returns:
  assumes "offset < length buffer" and "unidentified c (buffer ! offset)"
  shows "parseFrame c buffer offset = Inr None
       \<and> parse c buffer offset = Some (Inr [])
       \<and> parse_loop c buffer frames (parseFrame c buffer offset) = Some (Inr frames)"
  using assms by (simp add: parseFrame_unidentified parse_def parse_loop.simps)

theorem parse_unidentified_type_returns_witness:
  "(0::nat) < length [0xFF :: byte] \<and> unidentified frame_types ([0xFF] ! 0)
   \<and> parse frame_types [0xFF] 0 = Some (Inr [])"
  using parse_unidentified_type_returns [of 0 "[0xFF]" frame_types "[]"]
  by (simp add: unidentified_def case_labels_def frame_types_def)

text \<open>The claim as stated (an unknown type byte fails with \<open>FRAME_ENCODING_ERROR\<close>) does
  not hold: on the payload \<open>07 ff 07\<close> the parser returns the PING frame read before
  the unknown byte \<open>ff\<close>, and no error.\<close>

theorem parse_unidentified_type_counterexample:
  "unidentified frame_types ([0x07, 0xFF, 0x07] ! 1)
   \<and> parse frame_types [0x07, 0xFF, 0x07] 0 = Some (Inr [PingFrame])
   \<and> parse frame_types [0x07, 0xFF, 0x07] 0 \<noteq> Some (Inl (QuicError FRAME_ENCODING_ERROR))"
  by (simp add: unidentified_def case_labels_def parse_def parse_loop.simps parseFrame_def frame_types_def
      defined_def parsePing_def)

lemma skip_zeros_run:
  "skip_zeros (replicate k 0 @ rest) offset = skip_zeros rest (offset + k)"
  by (induction k arbitrary: offset) simp_all

lemma skip_zeros_stop: "(rest = [] \<or> hd rest \<noteq> 0) \<Longrightarrow> skip_zeros rest offset = offset"
  by (cases rest) auto

lemma parsePadding_run:
  assumes "rest = [] \<or> hd rest \<noteq> 0"
  shows "parseFrame c (pre @ PADDING c # replicate j 0 @ rest) (length pre)
          = Inr (Some (PaddingFrame j, length pre + 1 + j))"
  using assms
  by (simp add: parseFrame_def defined_def parsePadding_def Let_def skip_zeros_run skip_zeros_stop)

text \<open>
  Claim C4. A maximal run of \<open>k\<close> zero bytes at the frame-type position should give one
  PADDING frame whose recorded count is \<open>k\<close>, parsing resuming after the run. On the
  payload \<open>00 00 00 07\<close> (\<open>k = 3\<close>) the parser emits one PADDING frame and resumes at
  offset 3, but the frame records the size 2: the first zero byte is consumed as the
  type byte before \<open>startOffset\<close> is taken, so the count is \<open>k - 1\<close>.
\<close>

theorem parsePadding_size_of_three_zero_bytes:
  "parseFrame frame_types [0x00, 0x00, 0x00, 0x07] 0 = Inr (Some (PaddingFrame 2, 3))"
  by (simp add: parseFrame_def frame_types_def defined_def parsePadding_def)

subsection \<open>STREAM frames\<close>

lemma stream_flag_bits:
  fixes type :: byte
  shows "(type AND 0x01 \<noteq> 0) = bit type 0" and "(type AND 0x02 \<noteq> 0) = bit type 1"
    and "(type AND 0x04 \<noteq> 0) = bit type 2"
  using and_exp_eq_0_iff_not_bit [of type 0] and_exp_eq_0_iff_not_bit [of type 1]
    and_exp_eq_0_iff_not_bit [of type 2]
  by simp_all

lemma Buffer_alloc_Inr: "Buffer_alloc n = Inr p \<Longrightarrow> p = replicate n 0"
  by (simp add: Buffer_alloc_def split: if_splits)

lemma Buffer_copy_length: "Buffer_copy buffer target a b = Inr p \<Longrightarrow> length p = length target"
  by (auto simp add: Buffer_copy_def Let_def split: if_splits)

lemma Buffer_copy_rest:
  "Buffer_copy buffer (replicate (length buffer - a) 0) a (length buffer - a + a) = Inr p
   \<Longrightarrow> p = drop a buffer"
  by (auto simp add: Buffer_copy_def Let_def split: if_splits)

lemma parseStream_result:
  assumes res: "parseStream type buffer offset = Inr (frame, e)"
  shows "\<exists>s o1 o2 o3. frame = Stream s
     \<and> VLIE_decode buffer offset = Inr (streamID s, o1)
     \<and> fin s = bit type 0
     \<and> (if bit type 2 then VLIE_decode buffer o1 = Inr (dataOffset s, o2)
         else dataOffset s = 0 \<and> o2 = o1)
     \<and> (if bit type 1 then VLIE_decode buffer o2 = Inr (dataLength s, o3)
         else dataLength s = length buffer - o2 \<and> o3 = o2 \<and> data s = drop o2 buffer
              \<and> e = length buffer)
     \<and> length (data s) = dataLength s \<and> e = o3 + dataLength s"
proof -
  from res obtain sid o1 doff o2 dlen o3 p0 p where
    d1: "VLIE_decode buffer offset = Inr (sid, o1)" and
    d2: "(if bit type 2 then VLIE_decode buffer o1 else Inr (0, o1)) = Inr (doff, o2)" and
    d3: "(if bit type 1 then VLIE_decode buffer o2 else Inr (length buffer - o2, o2)) = Inr (dlen, o3)" and
    al: "Buffer_alloc dlen = Inr p0" and
    cp: "Buffer_copy buffer p0 o3 (dlen + o3) = Inr p" and
    fr: "frame = Stream \<lparr> streamID = sid, data = p, fin = bit type 0, len = True,
                           dataOffset = doff, dataLength = dlen \<rparr>" and
    e: "e = o3 + dlen"
    by (auto simp add: parseStream_def Let_def bind_err_Inr_iff stream_flag_bits)
  have p0: "p0 = replicate dlen 0" using al by (rule Buffer_alloc_Inr)
  have lenp: "length p = dlen" using Buffer_copy_length [OF cp] p0 by simp
  have o2le: "o2 \<le> length buffer"
    using d1 d2 by (auto split: if_splits dest: VLIE_decode_offset)
  have nolen: "\<not> bit type 1 \<Longrightarrow> dlen = length buffer - o2 \<and> o3 = o2 \<and> p = drop o2 buffer
      \<and> e = length buffer"
    using d3 cp p0 e o2le by (auto dest: Buffer_copy_rest)
  show ?thesis
    apply (rule exI [of _ "\<lparr> streamID = sid, data = p, fin = bit type 0, len = True,
                           dataOffset = doff, dataLength = dlen \<rparr>"])
    apply (rule exI [of _ o1], rule exI [of _ o2], rule exI [of _ o3])
    using fr d1 d2 d3 lenp e nolen by (auto split: if_splits)
qed

text \<open>
  Claim C8. For a type byte in the STREAM range (that no \<open>case\<close> label takes first), a
  successful parse gives a STREAM frame whose stream ID is decoded after the type byte;
  FIN is bit 0 of the type byte; with bit 2 (OFF) the data offset is the next decoded
  integer and without it the data offset is 0; with bit 1 (LEN) the data length is the
  next decoded integer and without it the data length is the number of bytes left in
  the buffer, the data are exactly those bytes and the returned offset is the end of
  the buffer.
\<close>

theorem parseStream_flags:
  assumes "offset < length buffer" and "type = buffer ! offset"
    and "type \<notin> set (case_labels c)" and "STREAM c \<le> type" and "type \<le> STREAM_MAX_NR c"
    and "parseFrame c buffer offset = Inr (Some (frame, e))"
  shows "\<exists>s o1 o2 o3. frame = Stream s
     \<and> VLIE_decode buffer (offset + 1) = Inr (streamID s, o1)
     \<and> fin s = bit type 0
     \<and> (if bit type 2 then VLIE_decode buffer o1 = Inr (dataOffset s, o2)
         else dataOffset s = 0 \<and> o2 = o1)
     \<and> (if bit type 1 then VLIE_decode buffer o2 = Inr (dataLength s, o3)
         else dataLength s = length buffer - o2 \<and> o3 = o2 \<and> data s = drop o2 buffer
              \<and> e = length buffer)
     \<and> length (data s) = dataLength s \<and> e = o3 + dataLength s"
proof -
  from assms have "parseStream type buffer (offset + 1) = Inr (frame, e)"
    by (simp add: parseFrame_stream defined_Inr_iff)
  then show ?thesis by (rule parseStream_result)
qed

lemma frame_types_stream_0x15:
  "(0x15 :: byte) \<notin> set (case_labels frame_types) \<and> STREAM frame_types \<le> 0x15
    \<and> (0x15 :: byte) \<le> STREAM_MAX_NR frame_types"
  by (simp add: case_labels_def frame_types_def)

lemma parseFrame_stream_0x15:
  "parseFrame frame_types [0x15, 0x04, 0x09, 0x68, 0x69] 0
     = Inr (Some (Stream \<lparr> streamID = 4, data = [0x68, 0x69], fin = True, len = True,
                            dataOffset = 9, dataLength = 2 \<rparr>, 5))"
  by (simp add: parseFrame_def frame_types_def defined_def parseStream_def
      VLIE_decode_def be_value_def Buffer_alloc_def Buffer_copy_def kMaxLength_def Let_def)

theorem parseStream_flags_witness:
  "\<exists>s o1 o2 o3.
       Stream \<lparr> streamID = 4, data = [0x68, 0x69], fin = True, len = True,
                dataOffset = 9, dataLength = 2 \<rparr> = Stream s
     \<and> VLIE_decode [0x15, 0x04, 0x09, 0x68, 0x69] (0 + 1) = Inr (streamID s, o1)
     \<and> fin s = bit (0x15 :: byte) 0
     \<and> (if bit (0x15 :: byte) 2 then VLIE_decode [0x15, 0x04, 0x09, 0x68, 0x69] o1 = Inr (dataOffset s, o2)
         else dataOffset s = 0 \<and> o2 = o1)
     \<and> (if bit (0x15 :: byte) 1 then VLIE_decode [0x15, 0x04, 0x09, 0x68, 0x69] o2 = Inr (dataLength s, o3)
         else dataLength s = length [0x15, 0x04, 0x09, 0x68, 0x69 :: byte] - o2 \<and> o3 = o2
              \<and> data s = drop o2 [0x15, 0x04, 0x09, 0x68, 0x69] \<and> 5 = length [0x15, 0x04, 0x09, 0x68, 0x69 :: byte])
     \<and> length (data s) = dataLength s \<and> 5 = o3 + dataLength s"
  using frame_types_stream_0x15
  by (intro parseStream_flags [of 0 "[0x15, 0x04, 0x09, 0x68, 0x69]" "0x15" frame_types _ 5])
     (simp_all add: parseFrame_stream_0x15)

subsection \<open>ACK frames with ECN counts\<close>





section \<open>Properties of the congestion controller\<close>

lemma sendPackets_closed:
  "congestionWindow cc \<le> bytesInFlight cc \<Longrightarrow> sendPackets cc = cc"
  by (simp add: sendPackets.simps [of cc])

lemma sendPackets_round_window:
  "congestionWindow (sendPackets_round cc) = congestionWindow cc"
  "endOfRecovery (sendPackets_round cc) = endOfRecovery cc"
  "sshtresh (sendPackets_round cc) = sshtresh cc"
  by (simp_all add: sendPackets_round_def onPacketSent_def Let_def split: option.splits list.splits)

lemma sendPackets_window:
  "congestionWindow (sendPackets cc) = congestionWindow cc
   \<and> endOfRecovery (sendPackets cc) = endOfRecovery cc
   \<and> sshtresh (sendPackets cc) = sshtresh cc"
proof (induction cc rule: sendPackets.induct)
  case (1 cc)
  show ?case
  proof (cases "bytesInFlight cc < congestionWindow cc \<and> length (packetsQueue cc) > 0")
    case True
    with "1.IH" show ?thesis
      by (simp add: sendPackets.simps [of cc] sendPackets_round_window)
  next
    case False
    then show ?thesis by (auto simp add: sendPackets.simps [of cc])
  qed
qed

lemma sendPackets_round_sent:
  "packetsQueue cc = packet # rest \<Longrightarrow>
   \<exists>pn. sent (sendPackets_round cc) = sent cc @ [packet\<lparr> packetNumber := pn \<rparr>]"
proof (cases "txNumber cc (packetType packet)")
  case None
  assume "packetsQueue cc = packet # rest"
  with None have "sent (sendPackets_round cc) = sent cc @ [packet\<lparr> packetNumber := packetNumber packet \<rparr>]"
    by (simp add: sendPackets_round_def onPacketSent_def Let_def)
  then show ?thesis ..
next
  case (Some pn)
  assume "packetsQueue cc = packet # rest"
  with Some have "sent (sendPackets_round cc) = sent cc @ [packet\<lparr> packetNumber := Some pn \<rparr>]"
    by (simp add: sendPackets_round_def onPacketSent_def Let_def)
  then show ?thesis ..
qed

lemma sendPackets_sent_grows:
  "\<exists>more. sent (sendPackets cc) = sent cc @ more"
proof (induction cc rule: sendPackets.induct)
  case (1 cc)
  show ?case
  proof (cases "bytesInFlight cc < congestionWindow cc \<and> length (packetsQueue cc) > 0")
    case True
    then obtain packet rest where q: "packetsQueue cc = packet # rest"
      by (cases "packetsQueue cc") auto
    from sendPackets_round_sent [OF q] obtain pn where
      r: "sent (sendPackets_round cc) = sent cc @ [packet\<lparr> packetNumber := pn \<rparr>]" ..
    from "1.IH" [OF True] obtain more where
      "sent (sendPackets (sendPackets_round cc)) = sent (sendPackets_round cc) @ more" ..
    with r True have "sent (sendPackets cc) = sent cc @ ([packet\<lparr> packetNumber := pn \<rparr>] @ more)"
      by (simp add: sendPackets.simps [of cc])
    then show ?thesis ..
  next
    case False
    then have "sent (sendPackets cc) = sent cc @ []" by (auto simp add: sendPackets.simps [of cc])
    then show ?thesis ..
  qed
qed

lemma sendPackets_open_sends_head:
  assumes "bytesInFlight cc < congestionWindow cc" and q: "packetsQueue cc = packet # rest"
  shows "\<exists>pn more. sent (sendPackets cc) = sent cc @ packet\<lparr> packetNumber := pn \<rparr> # more"
proof -
  from sendPackets_round_sent [OF q] obtain pn where
    r: "sent (sendPackets_round cc) = sent cc @ [packet\<lparr> packetNumber := pn \<rparr>]" ..
  from sendPackets_sent_grows [of "sendPackets_round cc"] obtain more where
    "sent (sendPackets (sendPackets_round cc)) = sent (sendPackets_round cc) @ more" ..
  with r assms have "sent (sendPackets cc) = sent cc @ packet\<lparr> packetNumber := pn \<rparr> # more"
    by (simp add: sendPackets.simps [of cc])
  then show ?thesis by blast
qed

lemma sendPackets_round_in_flight:
  assumes "packetsQueue cc = packet # rest"
  shows "bytesInFlight (sendPackets_round cc) =
           (if ackOnly packet then bytesInFlight cc
            else bytesInFlight cc + of_nat (byteLength packet))"
  using assms
  by (simp add: sendPackets_round_def onPacketSent_def Let_def split: option.splits)

text \<open>Sent through \<open>sendPackets\<close>, ACK-only packets never change \<open>bytesInFlight\<close>.\<close>

lemma sendPackets_ack_only_in_flight:
  "list_all ackOnly (packetsQueue cc) \<Longrightarrow> bytesInFlight (sendPackets cc) = bytesInFlight cc"
proof (induction cc rule: sendPackets.induct)
  case (1 cc)
  show ?case
  proof (cases "bytesInFlight cc < congestionWindow cc \<and> length (packetsQueue cc) > 0")
    case True
    then obtain packet rest where q: "packetsQueue cc = packet # rest"
      by (cases "packetsQueue cc") auto
    with "1.prems" have ack: "ackOnly packet" and rest: "list_all ackOnly rest" by simp_all
    from rest q have "list_all ackOnly (packetsQueue (sendPackets_round cc))"
      by (simp add: sendPackets_round_queue)
    from "1.IH" [OF True this] sendPackets_round_in_flight [OF q] ack True
    show ?thesis by (simp add: sendPackets.simps [of cc])
  next
    case False
    then show ?thesis by (auto simp add: sendPackets.simps [of cc])
  qed
qed

lemma window_filled_eq:
  "window_filled =
     \<lparr> packetsQueue = [ack_packet], bytesInFlight = 14600, congestionWindow = 14600,
       endOfRecovery = 0, sshtresh = None, txNumber = tx0(Protected1RTT \<mapsto> 10),
       sent = map (\<lambda>n. full_size\<lparr> packetNumber := Some n \<rparr>) [0, 1, 2, 3, 4, 5, 6, 7, 8, 9] \<rparr>"
  by (simp add: window_filled_def queuePackets_def newCongestionControl_def tx0_def full_size_def
      sendPackets.simps sendPackets_round_def onPacketSent_def INITIAL_WINDOW_def DEFAULT_MSS_def Let_def)

lemma ack_then_data_eq:
  "queuePackets (newCongestionControl tx0) [ack_packet, unsent] =
     \<lparr> packetsQueue = [], bytesInFlight = 1200, congestionWindow = 14600,
       endOfRecovery = 0, sshtresh = None, txNumber = tx0(Protected1RTT \<mapsto> 2),
       sent = [ack_packet\<lparr> packetNumber := Some 0 \<rparr>, unsent\<lparr> packetNumber := Some 1 \<rparr>] \<rparr>"
  by (simp add: queuePackets_def newCongestionControl_def tx0_def ack_packet_def unsent_def
      sendPackets.simps sendPackets_round_def onPacketSent_def INITIAL_WINDOW_def DEFAULT_MSS_def Let_def)

text \<open>
  Claim C2. Whenever \<open>bytes_in_flight \<ge> cwnd\<close> no queued packet that is not ACK-only
  should be sent, while an ACK-only packet should be sent regardless of that gate and,
  when sent, never increase \<open>bytes_in_flight\<close>. The controller keeps the gate for other
  packets (\<open>sendPackets_closed\<close>) and does not count the ACK-only packets it sends
  (\<open>sendPackets_ack_only_in_flight\<close>; below, an ACK-only packet and a 1200-byte packet
  sent on a new connection leave 1200 bytes in flight). But it does not let an ACK-only
  packet pass the gate: once ten 1460-byte packets queued on a new connection have
  filled the initial window of 14600 bytes, the ACK-only packet queued behind them stays
  in the queue, and a further call of \<open>sendPackets\<close> sends nothing. The loop tests
  \<open>bytesInFlight < congestionWindow\<close> before it looks at the packet, although the
  comment on \<open>bytesInFlight\<close> says that ACK-only packets are left out of it so that
  congestion control does not impede congestion feedback.
\<close>

theorem sendPackets_holds_ack_only_packet:
  "ackOnly ack_packet
   \<and> packetsQueue window_filled = [ack_packet]
   \<and> bytesInFlight window_filled = 14600 \<and> congestionWindow window_filled = 14600
   \<and> ack_packet\<lparr> packetNumber := Some 10 \<rparr> \<notin> set (sent window_filled)
   \<and> sendPackets window_filled = window_filled
   \<and> sent (queuePackets (newCongestionControl tx0) [ack_packet, unsent])
       = [ack_packet\<lparr> packetNumber := Some 0 \<rparr>, unsent\<lparr> packetNumber := Some 1 \<rparr>]
   \<and> bytesInFlight (queuePackets (newCongestionControl tx0) [ack_packet, unsent]) = 1200"
  by (simp add: ack_then_data_eq)
     (simp add: window_filled_eq sendPackets.simps ack_packet_def full_size_def)

lemma forEach_lost_result:
  "forEach_lost lostPackets (cc, largestLost) = Inr (cc', largestLost') \<Longrightarrow>
     largestLost' = fold max (map (the \<circ> packetNumber) (filter (\<lambda>p. \<not> ackOnly p) lostPackets)) largestLost
     \<and> congestionWindow cc' = congestionWindow cc \<and> endOfRecovery cc' = endOfRecovery cc
     \<and> sshtresh cc' = sshtresh cc"
proof (induction lostPackets arbitrary: cc largestLost)
  case Nil
  then show ?case by simp
next
  case (Cons lostPacket rest)
  show ?case
  proof (cases "ackOnly lostPacket")
    case True
    with Cons.prems have "forEach_lost rest (cc, largestLost) = Inr (cc', largestLost')" by simp
    from Cons.IH [OF this] True show ?thesis by simp
  next
    case False
    with Cons.prems obtain pn where pn: "packetNumber lostPacket = Some pn"
      by (cases "packetNumber lostPacket") (simp_all add: Let_def)
    have m: "(if pn > largestLost then pn else largestLost) = max pn largestLost"
      by (simp add: max_def)
    from Cons.prems False pn m
    have "forEach_lost rest
            (cc\<lparr> bytesInFlight := bytesInFlight cc - of_nat (byteLength lostPacket) \<rparr>,
             max pn largestLost) = Inr (cc', largestLost')"
      by (simp add: Let_def)
    from Cons.IH [OF this] False pn show ?thesis by simp
  qed
qed

lemma MINIMUM_WINDOW_pos: "0 < MINIMUM_WINDOW"
  by (simp add: MINIMUM_WINDOW_def DEFAULT_MSS_def)

lemma onPacketsLost_unfold:
  assumes "onPacketsLost cc lostPackets = Inr cc'"
  obtains cc1 where
    "forEach_lost lostPackets (cc, 0) = Inr (cc1, largest_lost lostPackets)"
    "congestionWindow cc1 = congestionWindow cc" "endOfRecovery cc1 = endOfRecovery cc"
    "sshtresh cc1 = sshtresh cc"
    "cc' = sendPackets
            (if \<not> inRecovery cc1 (largest_lost lostPackets)
             then cc1\<lparr> endOfRecovery := largest_lost lostPackets,
                        congestionWindow := max (congestionWindow cc1 * LOSS_REDUCTION_FACTOR) MINIMUM_WINDOW,
                        sshtresh := Some (max (congestionWindow cc1 * LOSS_REDUCTION_FACTOR) MINIMUM_WINDOW) \<rparr>
             else cc1)"
proof -
  from assms obtain cc1 largestLost where
    loop: "forEach_lost lostPackets (cc, 0) = Inr (cc1, largestLost)" and
    res: "cc' = sendPackets
            (if \<not> inRecovery cc1 largestLost
             then cc1\<lparr> endOfRecovery := largestLost,
                        congestionWindow := max (congestionWindow cc1 * LOSS_REDUCTION_FACTOR) MINIMUM_WINDOW,
                        sshtresh := Some (max (congestionWindow cc1 * LOSS_REDUCTION_FACTOR) MINIMUM_WINDOW) \<rparr>
             else cc1)"
    by (auto simp add: onPacketsLost_def bind_err_Inr_iff Let_def split: if_splits)
  from forEach_lost_result [OF loop] have "largestLost = largest_lost lostPackets"
    by (simp add: largest_lost_def)
  with loop res forEach_lost_result [OF loop] that show thesis by simp
qed

lemma onPacketsLost_cases:
  assumes "onPacketsLost cc lostPackets = Inr cc'"
  shows "(endOfRecovery cc < largest_lost lostPackets \<longrightarrow>
            congestionWindow cc' = max (congestionWindow cc * (1 / 2)) MINIMUM_WINDOW
          \<and> sshtresh cc' = Some (congestionWindow cc')
          \<and> endOfRecovery cc' = largest_lost lostPackets)
       \<and> (largest_lost lostPackets \<le> endOfRecovery cc \<longrightarrow>
            congestionWindow cc' = congestionWindow cc \<and> sshtresh cc' = sshtresh cc
          \<and> endOfRecovery cc' = endOfRecovery cc)"
  using assms
  by (rule onPacketsLost_unfold)
     (simp add: sendPackets_window inRecovery_def LOSS_REDUCTION_FACTOR_def)

lemma onPacketsLost_not_above:
  assumes "onPacketsLost cc lostPackets = Inr cc'" and "MINIMUM_WINDOW \<le> congestionWindow cc"
  shows "congestionWindow cc' \<le> congestionWindow cc" and "MINIMUM_WINDOW \<le> congestionWindow cc'"
proof -
  from assms(2) MINIMUM_WINDOW_pos have "congestionWindow cc * (1 / 2) \<le> congestionWindow cc"
    by simp
  with assms(2) have "max (congestionWindow cc * (1 / 2)) MINIMUM_WINDOW \<le> congestionWindow cc"
    by simp
  with onPacketsLost_cases [OF assms(1)] show "congestionWindow cc' \<le> congestionWindow cc"
    by (cases "endOfRecovery cc < largest_lost lostPackets") simp_all
  from onPacketsLost_cases [OF assms(1)] assms(2) show "MINIMUM_WINDOW \<le> congestionWindow cc'"
    by (cases "endOfRecovery cc < largest_lost lostPackets") simp_all
qed

lemma onPacketAcked_window:
  assumes "onPacketAcked cc ackedPacket = Inr cc'" and "MINIMUM_WINDOW \<le> congestionWindow cc"
  shows "congestionWindow cc \<le> congestionWindow cc'"
proof -
  have pos: "0 < congestionWindow cc" using assms(2) MINIMUM_WINDOW_pos by simp
  have "0 \<le> (DEFAULT_MSS * of_nat (byteLength ackedPacket)) / congestionWindow cc"
    using pos by (simp add: DEFAULT_MSS_def)
  with assms(1) show ?thesis
    by (auto simp add: onPacketAcked_def Let_def sendPackets_window
        split: if_splits option.splits)
qed

text \<open>The window of a reachable controller is never below the minimum window.\<close>

lemma reachable_min_window: "reachable cc \<Longrightarrow> MINIMUM_WINDOW \<le> congestionWindow cc"
proof (induction rule: reachable.induct)
  case (constructed tx)
  show ?case
    by (simp add: newCongestionControl_def INITIAL_WINDOW_def MINIMUM_WINDOW_def DEFAULT_MSS_def)
next
  case (queued cc packets)
  then show ?case by (simp add: queuePackets_def sendPackets_window)
next
  case (acked cc ackedPacket cc')
  from onPacketAcked_window [OF acked.hyps(2) acked.IH] acked.IH show ?case by simp
next
  case (lost cc lostPackets cc')
  from lost.hyps(2) lost.IH show ?case by (rule onPacketsLost_not_above)
next
  case (timeout cc)
  show ?case by (simp add: onRetransmissionTimeoutVerified_def)
qed

text \<open>
  Claim C7 (as amended). The largest lost packet number is taken among the lost packets
  that are not ACK-only (0 when there is none). On a loss event whose largest lost
  packet number is greater than \<open>end_of_recovery\<close>, \<open>cwnd\<close> becomes \<open>max(cwnd_before \<times> 0.5, min_window)\<close>,
  \<open>ssthresh\<close> the new \<open>cwnd\<close> and \<open>end_of_recovery\<close> the largest lost packet number.
  On a loss event whose largest lost packet number is not greater than
  \<open>end_of_recovery\<close>, the three are unchanged. In every loss event of a controller
  whose window is at least the minimum window, and so of every controller reached
  from the constructor by the controller's operations, \<open>cwnd\<close> does not increase.
\<close>

theorem onPacketsLost_window:
  assumes "onPacketsLost cc lostPackets = Inr cc'"
  shows "(endOfRecovery cc < largest_lost lostPackets \<longrightarrow>
            congestionWindow cc' = max (congestionWindow cc * (1 / 2)) MINIMUM_WINDOW
          \<and> sshtresh cc' = Some (congestionWindow cc')
          \<and> endOfRecovery cc' = largest_lost lostPackets)
       \<and> (largest_lost lostPackets \<le> endOfRecovery cc \<longrightarrow>
            congestionWindow cc' = congestionWindow cc \<and> sshtresh cc' = sshtresh cc
          \<and> endOfRecovery cc' = endOfRecovery cc)
       \<and> (MINIMUM_WINDOW \<le> congestionWindow cc \<longrightarrow> congestionWindow cc' \<le> congestionWindow cc)
       \<and> (reachable cc \<longrightarrow> congestionWindow cc' \<le> congestionWindow cc)"
  using onPacketsLost_cases [OF assms] onPacketsLost_not_above(1) [OF assms] reachable_min_window [of cc]
  by blast

lemma two_sent_eq: "queuePackets (newCongestionControl tx0) [unsent, unsent] = two_sent"
  by (simp add: queuePackets_def newCongestionControl_def two_sent_def unsent_def tx0_def
      sendPackets.simps sendPackets_round_def onPacketSent_def INITIAL_WINDOW_def DEFAULT_MSS_def Let_def)

lemma one_lost_eq: "onPacketsLost two_sent [unsent\<lparr> packetNumber := Some 1 \<rparr>] = Inr one_lost"
  by (simp add: onPacketsLost_def two_sent_def one_lost_def unsent_def inRecovery_def Let_def
      sendPackets.simps LOSS_REDUCTION_FACTOR_def MINIMUM_WINDOW_def DEFAULT_MSS_def)

lemma both_lost_eq: "onPacketsLost one_lost [unsent\<lparr> packetNumber := Some 0 \<rparr>] = Inr both_lost"
  by (simp add: onPacketsLost_def two_sent_def one_lost_def both_lost_def unsent_def inRecovery_def Let_def
      sendPackets.simps)

lemma reachable_two_sent: "reachable two_sent"
  using reachable.queued [OF reachable.constructed, of tx0 "[unsent, unsent]"]
  by (simp add: two_sent_eq)

lemma reachable_one_lost: "reachable one_lost"
  using reachable_two_sent one_lost_eq by (rule reachable.lost)

lemma ack_only_lost_eq:
  "onPacketsLost two_sent [ack_packet\<lparr> packetNumber := Some 2 \<rparr>] = Inr two_sent"
  by (simp add: onPacketsLost_def two_sent_def ack_packet_def inRecovery_def Let_def
      sendPackets.simps)

text \<open>The claim as stated does not hold. Two 1200-byte packets are sent on a new
  connection; the loss of packet 1 starts a recovery period (\<open>end_of_recovery = 1\<close>,
  \<open>cwnd = 7300\<close>); the loss of packet 0, inside that period, leaves \<open>cwnd\<close> at 7300,
  above \<open>max(3650, 2920)\<close>: the bound \<open>cwnd_after \<le> max(cwnd_before \<times> 0.5,
  min_window)\<close> does not hold in every loss event. And a lost ACK-only packet does not
  count: reported lost with packet number 2 while \<open>end_of_recovery = 0\<close>, it leaves the
  controller as it is.\<close>

theorem onPacketsLost_window_counterexample:
  "onPacketsLost one_lost [unsent\<lparr> packetNumber := Some 0 \<rparr>] = Inr both_lost
   \<and> largest_lost [unsent\<lparr> packetNumber := Some 0 \<rparr>] = 0 \<and> endOfRecovery one_lost = 1
   \<and> congestionWindow one_lost = 7300 \<and> congestionWindow both_lost = 7300
   \<and> max (congestionWindow one_lost * (1 / 2)) MINIMUM_WINDOW = 3650
   \<and> \<not> congestionWindow both_lost \<le> max (congestionWindow one_lost * (1 / 2)) MINIMUM_WINDOW
   \<and> onPacketsLost two_sent [ack_packet\<lparr> packetNumber := Some 2 \<rparr>] = Inr two_sent
   \<and> endOfRecovery two_sent = 0 \<and> congestionWindow two_sent = 14600
   \<and> max (congestionWindow two_sent * (1 / 2)) MINIMUM_WINDOW = 7300"
  by (simp add: both_lost_eq ack_only_lost_eq)
     (simp add: both_lost_def one_lost_def two_sent_def unsent_def largest_lost_def
        MINIMUM_WINDOW_def DEFAULT_MSS_def)

theorem onPacketsLost_window_witness:
  "onPacketsLost two_sent [unsent\<lparr> packetNumber := Some 1 \<rparr>] = Inr one_lost
   \<and> endOfRecovery two_sent < largest_lost [unsent\<lparr> packetNumber := Some 1 \<rparr>]
   \<and> congestionWindow one_lost = max (congestionWindow two_sent * (1 / 2)) MINIMUM_WINDOW
   \<and> sshtresh one_lost = Some (congestionWindow one_lost)
   \<and> endOfRecovery one_lost = largest_lost [unsent\<lparr> packetNumber := Some 1 \<rparr>]
   \<and> onPacketsLost one_lost [unsent\<lparr> packetNumber := Some 0 \<rparr>] = Inr both_lost
   \<and> largest_lost [unsent\<lparr> packetNumber := Some 0 \<rparr>] \<le> endOfRecovery one_lost
   \<and> congestionWindow both_lost = congestionWindow one_lost
   \<and> MINIMUM_WINDOW \<le> congestionWindow two_sent \<and> reachable two_sent
   \<and> congestionWindow one_lost \<le> congestionWindow two_sent"
  using onPacketsLost_window [OF one_lost_eq] onPacketsLost_window [OF both_lost_eq]
    reachable_two_sent
  by (simp add: one_lost_eq both_lost_eq)
     (simp add: both_lost_def one_lost_def two_sent_def unsent_def largest_lost_def
        MINIMUM_WINDOW_def DEFAULT_MSS_def)

section \<open>Properties of the transport-parameter parser\<close>

lemma unat_byte_of_nat: "n < 256 \<Longrightarrow> unat (of_nat n :: byte) = n"
  by (simp add: unat_of_nat)

lemma u16_roundtrip:
  assumes "n < 65536"
  shows "256 * unat (of_nat (n div 256) :: byte) + unat (of_nat (n mod 256) :: byte) = n"
proof -
  from assms have "n div 256 < 256" by simp
  then show ?thesis by (simp add: unat_byte_of_nat)
qed

lemma read_type:
  assumes "fst r < 65536"
  shows "readUInt16BE (pre @ encode_record r @ post) (length pre) = Inr (fst r)"
  using u16_roundtrip [OF assms]
  by (simp add: readUInt16BE_def encode_record_def nth_append)

lemma read_length:
  assumes "length (snd r) < 65536"
  shows "readUInt16BE (pre @ encode_record r @ post) (length pre + 2) = Inr (length (snd r))"
  using u16_roundtrip [OF assms]
  by (simp add: readUInt16BE_def encode_record_def nth_append)

lemma read_value:
  assumes "length (snd r) < 65536"
  shows "readValue (pre @ encode_record r @ post) (length pre + 4) (length (snd r)) = Inr (tp_value (snd r))"
  using assms
  by (simp add: readValue_def tp_value_def encode_record_def Buffer_alloc_def Buffer_copy_def
      readUIntBE_def kMaxLength_def Let_def)

lemma encode_records_Cons: "encode_records (r # rs) = encode_record r @ encode_records rs"
  by (simp add: encode_records_def)

lemma length_encode_record: "length (encode_record r) = 4 + length (snd r)"
  by (simp add: encode_record_def)

lemma readParameters_records:
  "well_formed rs \<Longrightarrow> readParameters (pre @ encode_records rs) (length pre) vals = store_all rs vals"
proof (induction rs arbitrary: pre vals)
  case Nil
  show ?case
    by (simp add: readParameters.simps [of _ "length pre"] encode_records_def)
next
  case (Cons r rs)
  from Cons.prems have wf: "fst r < 65536" "length (snd r) < 65536" and wfs: "well_formed rs"
    by (simp_all add: well_formed_def)
  let ?buffer = "pre @ encode_record r @ encode_records rs"
  have inside: "length pre < length ?buffer" by (simp add: length_encode_record)
  have next_offset: "length pre + 4 + length (snd r) = length (pre @ encode_record r)"
    by (simp add: length_encode_record)
  have IH: "readParameters ?buffer (length (pre @ encode_record r)) vals' = store_all rs vals'" for vals'
    using Cons.IH [OF wfs, of "pre @ encode_record r" vals'] by simp
  have "readParameters ?buffer (length pre) vals =
          (if fst r \<in> fst ` set vals then Inl (QuicError TRANSPORT_PARAMETER_ERROR)
           else readParameters ?buffer (length pre + 4 + length (snd r)) (vals @ [(fst r, tp_value (snd r))]))"
    by (subst readParameters.simps)
       (simp only: inside if_True sum.case
          read_type [OF wf(1)] read_length [OF wf(2)] read_value [OF wf(2)])
  then show ?case
    by (simp add: encode_records_Cons next_offset IH del: length_append)
qed

lemma store_all_result:
  "store_all rs vals =
     (if distinct (map fst rs) \<and> fst ` set vals \<inter> fst ` set rs = {}
      then Inr (vals @ map (\<lambda>r. (fst r, tp_value (snd r))) rs)
      else Inl (QuicError TRANSPORT_PARAMETER_ERROR))"
proof (induction rs arbitrary: vals)
  case Nil
  show ?case by simp
next
  case (Cons r rs)
  show ?case by (auto simp add: Cons.IH image_Un)
qed

lemma fromExtensionBuffer_records:
  assumes "well_formed rs"
  shows "fromExtensionBuffer server (encode_records rs) v =
     (if distinct (map fst rs)
      then Inr (fold set_known (sort_key fst (map (\<lambda>r. (fst r, tp_value (snd r))) rs))
                  (newTransportParameters server 0 0 0 v))
      else Inl (QuicError TRANSPORT_PARAMETER_ERROR))"
  using readParameters_records [OF assms, of "[]" "[]"]
  by (simp add: fromExtensionBuffer_def store_all_result set_known_def)

lemma fold_set_known_filter:
  "fold set_known (filter (\<lambda>e. fst e \<in> set TransportParameterType) xs) tp = fold set_known xs tp"
  by (induction xs arbitrary: tp) (auto simp add: set_known_def)

lemma well_formed_filter: "well_formed rs \<Longrightarrow> well_formed (filter P rs)"
  by (induction rs) (auto simp add: well_formed_def)

lemma unknown_ignored:
  "fold set_known (sort_key fst (map (\<lambda>r. (fst r, tp_value (snd r))) (filter known_tag rs))) tp
     = fold set_known (sort_key fst (map (\<lambda>r. (fst r, tp_value (snd r))) rs)) tp"
proof -
  have "map (\<lambda>r. (fst r, tp_value (snd r))) (filter known_tag rs)
          = filter (\<lambda>e. fst e \<in> set TransportParameterType) (map (\<lambda>r. (fst r, tp_value (snd r))) rs)"
    by (induction rs) (simp_all add: known_tag_def)
  then show ?thesis
    by (simp add: filter_sort [symmetric] fold_set_known_filter)
qed

text \<open>
  Claim C6. For every well-formed transport-parameter buffer (the concatenation of
  records \<open>type(2) | length(2) | value(length)\<close>), \<open>fromExtensionBuffer\<close> raises
  \<open>TRANSPORT_PARAMETER_ERROR\<close> if and only if some type occurs in two records, and it
  raises nothing else; when no type occurs twice, the result equals the result for the
  buffer with the records of unknown type (a type that is not a value of
  \<open>TransportParameterType\<close>) removed.
\<close>

theorem fromExtensionBuffer_duplicates_and_unknown_tags:
  assumes "well_formed rs"
  shows "(fromExtensionBuffer server (encode_records rs) v = Inl (QuicError TRANSPORT_PARAMETER_ERROR)
            \<longleftrightarrow> \<not> distinct (map fst rs))
       \<and> ((\<exists>e. fromExtensionBuffer server (encode_records rs) v = Inl e) \<longleftrightarrow> \<not> distinct (map fst rs))
       \<and> (distinct (map fst rs) \<longrightarrow>
            fromExtensionBuffer server (encode_records rs) v
              = fromExtensionBuffer server (encode_records (filter known_tag rs)) v)"
proof (intro conjI impI)
  show "fromExtensionBuffer server (encode_records rs) v = Inl (QuicError TRANSPORT_PARAMETER_ERROR)
            \<longleftrightarrow> \<not> distinct (map fst rs)"
    by (simp add: fromExtensionBuffer_records [OF assms])
  show "(\<exists>e. fromExtensionBuffer server (encode_records rs) v = Inl e) \<longleftrightarrow> \<not> distinct (map fst rs)"
    by (simp add: fromExtensionBuffer_records [OF assms])
next
  assume d: "distinct (map fst rs)"
  then have d': "distinct (map fst (filter known_tag rs))" by (rule distinct_map_filter)
  from d d' show "fromExtensionBuffer server (encode_records rs) v
              = fromExtensionBuffer server (encode_records (filter known_tag rs)) v"
    by (simp add: fromExtensionBuffer_records [OF assms]
        fromExtensionBuffer_records [OF well_formed_filter [OF assms]] unknown_ignored)
qed

theorem fromExtensionBuffer_duplicates_and_unknown_tags_witness:
  "well_formed [(1, [0, 0, 0, 5]), (0x20, [1]), (9, [])]
   \<and> distinct (map fst [(1 :: nat, [0, 0, 0, 5 :: byte]), (0x20, [1]), (9, [])])
   \<and> fromExtensionBuffer True (encode_records [(1, [0, 0, 0, 5]), (0x20, [1]), (9, [])]) [0xff, 0, 0, 0x0f]
       = fromExtensionBuffer True (encode_records [(1, [0, 0, 0, 5]), (9, [])]) [0xff, 0, 0, 0x0f]
   \<and> well_formed [(1, [0, 0, 0, 5]), (1, [0, 0, 0, 6])]
   \<and> \<not> distinct (map fst [(1 :: nat, [0, 0, 0, 5 :: byte]), (1, [0, 0, 0, 6])])
   \<and> fromExtensionBuffer True (encode_records [(1, [0, 0, 0, 5]), (1, [0, 0, 0, 6])]) [0xff, 0, 0, 0x0f]
       = Inl (QuicError TRANSPORT_PARAMETER_ERROR)"
  using
    fromExtensionBuffer_duplicates_and_unknown_tags
      [of "[(1, [0, 0, 0, 5]), (0x20, [1]), (9, [])]" True "[0xff, 0, 0, 0x0f]"]
    fromExtensionBuffer_duplicates_and_unknown_tags
      [of "[(1, [0, 0, 0, 5]), (1, [0, 0, 0, 6])]" True "[0xff, 0, 0, 0x0f]"]
  by (simp add: well_formed_def known_tag_def TransportParameterType_def
     INITIAL_MAX_STREAM_DATA_BIDI_LOCAL_def INITIAL_MAX_DATA_def INITIAL_MAX_BIDI_STREAMS_def IDLE_TIMEOUT_def
     PREFERRED_ADDRESS_def MAX_PACKET_SIZE_def STATELESS_RESET_TOKEN_def ACK_DELAY_EXPONENT_def
     INITIAL_MAX_UNI_STREAMS_def DISABLE_MIGRATION_def INITIAL_MAX_STREAM_DATA_BIDI_REMOTE_def
     INITIAL_MAX_STREAM_DATA_UNI_def MAX_ACK_DELAY_def ORIGINAL_CONNECTION_ID_def)

section \<open>Properties of the server's version negotiation\<close>




end
